theory Spec2Isabelle
  imports Complex_Main "HOL-Library.Word" "HOL-Library.Char_ord" "HOL-Library.List_Lexorder"
begin

section \<open>Errors\<close>

text \<open>
  Every \<^verbatim>\<open>throw\<close> of the memory engine is a value of this type. The source throws
  plain \<^verbatim>\<open>Error\<close> objects that differ in their message; the constructors follow the
  error kinds of the design.
\<close>

datatype error =
    MissingRequiredField string
  | ChunkNotFound string
  | InvalidFormat
  | CapacityExceeded
  | IdExhausted
  | IoError
  | EmbedderUnavailable
  | IndexNotInitialized
  | YamlError
  | BackendError

section \<open>Chunk identifiers\<close>

type_synonym byte = "8 word"

text \<open>\<^verbatim>\<open>Buffer.toString('hex')\<close>: two lowercase hexadecimal digits per byte.\<close>

definition hexDigit :: "nat \<Rightarrow> char" where
  "hexDigit n = ''0123456789abcdef'' ! (n mod 16)"

definition hexByte :: "byte \<Rightarrow> string" where
  "hexByte b = [hexDigit (unat b div 16), hexDigit (unat b mod 16)]"

definition toHex :: "byte list \<Rightarrow> string" where
  "toHex bs = concat (map hexByte bs)"

text \<open>
  \<^verbatim>\<open>generateId\<close> is \<^verbatim>\<open>crypto.randomBytes(3).toString('hex')\<close>. The three random bytes
  are an input of the model.
\<close>

type_synonym bytes3 = "byte \<times> byte \<times> byte"

definition generateId :: "bytes3 \<Rightarrow> string" where
  "generateId r = (case r of (a, b, c) \<Rightarrow> toHex [a, b, c])"

definition isHexChar :: "char \<Rightarrow> bool" where
  "isHexChar c = (c \<in> set ''0123456789abcdef'')"

text \<open>The pattern \<^verbatim>\<open>/^[a-f0-9]{6}$/\<close>.\<close>

definition isHexId :: "string \<Rightarrow> bool" where
  "isHexId s = (length s = 6 \<and> list_all isHexChar s)"

text \<open>
  The loop of \<^verbatim>\<open>ChunkStorage.generateUniqueId\<close>:
  \<^verbatim>\<open>while (this.exists(id) && attempts < 100) { id = generateId(); attempts++; }\<close>
  The argument \<open>gen k\<close> is the identifier the \<open>k\<close>-th call of \<^verbatim>\<open>generateId\<close> returns,
  counting the call before the loop as call 0; inside the loop the next call is
  call \<open>attempts + 1\<close>.
\<close>

function generateLoop :: "(string \<Rightarrow> bool) \<Rightarrow> (nat \<Rightarrow> string) \<Rightarrow> string \<Rightarrow> nat \<Rightarrow> string \<times> nat" where
  "generateLoop ex gen i attempts =
     (if ex i \<and> attempts < 100
      then generateLoop ex gen (gen (attempts + 1)) (attempts + 1)
      else (i, attempts))"
  by pat_completeness auto
termination
  by (relation "measure (\<lambda>(ex, gen, i, attempts). 100 - attempts)") auto

declare generateLoop.simps [simp del]

section \<open>Data model\<close>

datatype chunk_type = Framework | Insight | Fact | Log | Emotional | Goal | Question

datatype epistemic_status = Established | Working | Speculative | Deprecated

datatype lifecycle_status = Active | Dormant | Review | Archived

record chunk_relation =
  rel_id :: string
  rel_reason :: string

text \<open>
  \<^verbatim>\<open>interface Chunk\<close>. The field \<^verbatim>\<open>id\<close> is written \<open>id'\<close> and \<^verbatim>\<open>type\<close> is written
  \<open>type'\<close>. Timestamps are the ISO strings the source stores.
  \<^verbatim>\<open>last_relevant_date: string | null\<close> is an option whose \<open>None\<close> is \<^verbatim>\<open>null\<close>; the optional
  fields \<^verbatim>\<open>expires?\<close> and \<^verbatim>\<open>context_notes?\<close> are options whose \<open>None\<close> is \<^verbatim>\<open>undefined\<close>.
  Counters are JavaScript numbers holding integers; the model takes them as integers,
  which is what \<^verbatim>\<open>++\<close> computes on a number below \<open>2\<^sup>5\<^sup>3\<close>.
\<close>

record chunk =
  id' :: string
  content :: string
  summary :: string
  type' :: chunk_type
  epistemic :: epistemic_status
  status :: lifecycle_status
  surface_tags :: "string list"
  related :: "chunk_relation list"
  created :: string
  updated :: string
  accessed :: string
  retrieved_count :: int
  relevant_count :: int
  last_relevant_date :: "string option"
  expires :: "string option"
  context_notes :: "string option"

text \<open>
  \<^verbatim>\<open>Partial<Chunk>\<close>: every key may be absent (\<open>None\<close>); a key that is present holds a
  value of the type the interface gives the field.
\<close>

record pchunk =
  p_id :: "string option"
  p_content :: "string option"
  p_summary :: "string option"
  p_type :: "chunk_type option"
  p_epistemic :: "epistemic_status option"
  p_status :: "lifecycle_status option"
  p_surface_tags :: "string list option"
  p_related :: "chunk_relation list option"
  p_created :: "string option"
  p_updated :: "string option"
  p_accessed :: "string option"
  p_retrieved_count :: "int option"
  p_relevant_count :: "int option"
  p_last_relevant_date :: "string option option"
  p_expires :: "string option option"
  p_context_notes :: "string option option"

definition noMetadata :: pchunk where
  "noMetadata = \<lparr> p_id = None, p_content = None, p_summary = None, p_type = None,
     p_epistemic = None, p_status = None, p_surface_tags = None, p_related = None,
     p_created = None, p_updated = None, p_accessed = None, p_retrieved_count = None,
     p_relevant_count = None, p_last_relevant_date = None, p_expires = None,
     p_context_notes = None \<rparr>"

text \<open>
  The object spread \<^verbatim>\<open>{ ...base, ...metadata }\<close>: a key present in \<^verbatim>\<open>metadata\<close> wins.
\<close>

definition spread :: "chunk \<Rightarrow> pchunk \<Rightarrow> chunk" where
  "spread base m = \<lparr>
     id' = (case p_id m of Some v \<Rightarrow> v | None \<Rightarrow> id' base),
     content = (case p_content m of Some v \<Rightarrow> v | None \<Rightarrow> content base),
     summary = (case p_summary m of Some v \<Rightarrow> v | None \<Rightarrow> summary base),
     type' = (case p_type m of Some v \<Rightarrow> v | None \<Rightarrow> type' base),
     epistemic = (case p_epistemic m of Some v \<Rightarrow> v | None \<Rightarrow> epistemic base),
     status = (case p_status m of Some v \<Rightarrow> v | None \<Rightarrow> status base),
     surface_tags = (case p_surface_tags m of Some v \<Rightarrow> v | None \<Rightarrow> surface_tags base),
     related = (case p_related m of Some v \<Rightarrow> v | None \<Rightarrow> related base),
     created = (case p_created m of Some v \<Rightarrow> v | None \<Rightarrow> created base),
     updated = (case p_updated m of Some v \<Rightarrow> v | None \<Rightarrow> updated base),
     accessed = (case p_accessed m of Some v \<Rightarrow> v | None \<Rightarrow> accessed base),
     retrieved_count = (case p_retrieved_count m of Some v \<Rightarrow> v | None \<Rightarrow> retrieved_count base),
     relevant_count = (case p_relevant_count m of Some v \<Rightarrow> v | None \<Rightarrow> relevant_count base),
     last_relevant_date =
       (case p_last_relevant_date m of Some v \<Rightarrow> v | None \<Rightarrow> last_relevant_date base),
     expires = (case p_expires m of Some v \<Rightarrow> v | None \<Rightarrow> expires base),
     context_notes = (case p_context_notes m of Some v \<Rightarrow> v | None \<Rightarrow> context_notes base) \<rparr>"

section \<open>Strings and arrays of JavaScript\<close>

text \<open>
  Strings are lists of code units; the model covers code units below 256. The functions
  below are the library calls the source makes, written out.
\<close>

abbreviation nl :: char where
  "nl \<equiv> CHR 0x0A"

text \<open>\<^verbatim>\<open>s.split('\n')\<close>: never empty; the empty string gives one empty line.\<close>

fun split_nl :: "string \<Rightarrow> string list" where
  "split_nl [] = [[]]"
| "split_nl (c # cs) =
     (if c = nl then [] # split_nl cs
      else (case split_nl cs of [] \<Rightarrow> [[c]] | l # ls \<Rightarrow> (c # l) # ls))"

text \<open>\<^verbatim>\<open>xs.join(sep)\<close>.\<close>

fun joinWith :: "string \<Rightarrow> string list \<Rightarrow> string" where
  "joinWith sep [] = []"
| "joinWith sep [x] = x"
| "joinWith sep (x # y # ys) = x @ sep @ joinWith sep (y # ys)"

text \<open>
  \<^verbatim>\<open>s.trim()\<close> removes white space and line terminators at both ends; below 256
  these are the code units 9 to 13, 32 and 160.
\<close>

definition isWhitespace :: "char \<Rightarrow> bool" where
  "isWhitespace c =
     (c \<in> {CHR 0x09, CHR 0x0A, CHR 0x0B, CHR 0x0C, CHR 0x0D, CHR 0x20, CHR 0xA0})"

definition trim :: "string \<Rightarrow> string" where
  "trim s = rev (dropWhile isWhitespace (rev (dropWhile isWhitespace s)))"

text \<open>\<^verbatim>\<open>xs.indexOf(x, from)\<close> for \<open>from \<ge> 0\<close>; \<open>None\<close> is the answer \<open>-1\<close>.\<close>

fun indexOf :: "'a list \<Rightarrow> 'a \<Rightarrow> nat \<Rightarrow> nat option" where
  "indexOf [] x from = None"
| "indexOf (y # ys) x from =
     (if from = 0
      then (if y = x then Some 0 else map_option Suc (indexOf ys x 0))
      else map_option Suc (indexOf ys x (from - 1)))"

text \<open>\<^verbatim>\<open>xs.slice(a, b)\<close> for \<open>0 \<le> a\<close> and \<open>0 \<le> b\<close>.\<close>

definition slice' :: "'a list \<Rightarrow> nat \<Rightarrow> nat \<Rightarrow> 'a list" where
  "slice' xs a b = take (b - a) (drop a xs)"

text \<open>\<^verbatim>\<open>s.endsWith(suffix)\<close>.\<close>

definition endsWith :: "string \<Rightarrow> string \<Rightarrow> bool" where
  "endsWith s suffix =
     (length suffix \<le> length s \<and> drop (length s - length suffix) s = suffix)"

text \<open>\<^verbatim>\<open>s.split('-')[0]\<close>: the characters before the first \<^verbatim>\<open>-\<close>.\<close>

definition beforeDash :: "string \<Rightarrow> string" where
  "beforeDash s = takeWhile (\<lambda>c. c \<noteq> CHR ''-'') s"

text \<open>\<^verbatim>\<open>path.basename(p)\<close> for a path with \<^verbatim>\<open>/\<close> separators that does not end in one.\<close>

definition basename :: "string \<Rightarrow> string" where
  "basename p = rev (takeWhile (\<lambda>c. c \<noteq> CHR ''/'') (rev p))"

section \<open>Filenames\<close>

text \<open>
  \<^verbatim>\<open>toLowerCase\<close> on one code unit. Below 256 it also changes accented capitals, into
  code units that are no more in \<^verbatim>\<open>[a-z0-9]\<close> than the capitals are; the slug is the same.
\<close>

definition lowerChar :: "char \<Rightarrow> char" where
  "lowerChar c =
     (if c \<in> set ''ABCDEFGHIJKLMNOPQRSTUVWXYZ'' then char_of (of_char c + (32::nat)) else c)"

definition isAlnum :: "char \<Rightarrow> bool" where
  "isAlnum c = (c \<in> set ''abcdefghijklmnopqrstuvwxyz0123456789'')"

text \<open>\<^verbatim>\<open>.replace(/[^a-z0-9]+/g, '-')\<close>: every maximal run of other characters becomes one dash.\<close>

function squash :: "string \<Rightarrow> string" where
  "squash [] = []"
| "squash (c # cs) =
     (if isAlnum c then c # squash cs
      else CHR ''-'' # squash (dropWhile (\<lambda>d. \<not> isAlnum d) cs))"
  by pat_completeness auto
termination
  by (relation "measure length") (auto simp: le_imp_less_Suc length_dropWhile_le)

text \<open>\<^verbatim>\<open>.replace(/-+$/, '')\<close> and \<^verbatim>\<open>.replace(/^-+|-+$/g, '')\<close>.\<close>

definition stripTrailingDashes :: "string \<Rightarrow> string" where
  "stripTrailingDashes s = rev (dropWhile (\<lambda>c. c = CHR ''-'') (rev s))"

definition stripDashes :: "string \<Rightarrow> string" where
  "stripDashes s = stripTrailingDashes (dropWhile (\<lambda>c. c = CHR ''-'') s)"

definition slugify :: "string \<Rightarrow> string" where
  "slugify text = stripTrailingDashes (take 15 (stripDashes (squash (map lowerChar text))))"

definition getFilename :: "string \<Rightarrow> string \<Rightarrow> string" where
  "getFilename i summ = i @ ''-'' @ slugify summ @ ''.md''"

section \<open>Chunk codec\<close>

text \<open>
  The header of a chunk file is YAML, written and read by the \<^verbatim>\<open>yaml\<close> package, which is
  not part of the repository. The package is a parameter of the model: a pair of functions
  between header objects and text. A header object is read at the types
  \<^verbatim>\<open>interface Chunk\<close> declares: the keys \<^verbatim>\<open>parseChunkFile\<close> copies without a default are
  fields, the keys it guards with \<^verbatim>\<open>||\<close> or \<^verbatim>\<open>&&\<close> and the optional keys are options whose
  \<open>None\<close> is an absent key (or \<^verbatim>\<open>null\<close>). \<open>parseYaml\<close> answers \<open>None\<close> where the package
  throws; a header that parses to an object outside the interface is outside the model.
\<close>

record meta =
  m_id :: string
  m_summary :: string
  m_type :: chunk_type
  m_epistemic :: epistemic_status
  m_status :: lifecycle_status
  m_surface_tags :: "string list option"
  m_created :: string
  m_updated :: string
  m_accessed :: string
  m_retrieved_count :: "int option"
  m_relevant_count :: "int option"
  m_last_relevant_date :: "string option"
  m_related :: "chunk_relation list option"
  m_expires :: "string option"
  m_context_notes :: "string option"

record yaml_lib =
  stringifyYaml :: "meta \<Rightarrow> string"
  parseYaml :: "string \<Rightarrow> meta option"

text \<open>A string in a condition: the empty string is falsy, \<^verbatim>\<open>undefined\<close> too.\<close>

definition truthy :: "string option \<Rightarrow> bool" where
  "truthy v = (case v of None \<Rightarrow> False | Some s \<Rightarrow> s \<noteq> [])"

text \<open>The object \<^verbatim>\<open>meta\<close> that \<^verbatim>\<open>serializeChunk\<close> builds.\<close>

definition headerOf :: "chunk \<Rightarrow> meta" where
  "headerOf c = \<lparr>
     m_id = id' c, m_summary = summary c, m_type = type' c, m_epistemic = epistemic c,
     m_status = status c, m_surface_tags = Some (surface_tags c),
     m_created = created c, m_updated = updated c, m_accessed = accessed c,
     m_retrieved_count = Some (retrieved_count c),
     m_relevant_count = Some (relevant_count c),
     m_last_relevant_date = last_relevant_date c,
     m_related = (if length (related c) > 0 then Some (related c) else None),
     m_expires = (if truthy (expires c) then expires c else None),
     m_context_notes = (if truthy (context_notes c) then context_notes c else None) \<rparr>"

definition FRONTMATTER_DELIMITER :: string where
  "FRONTMATTER_DELIMITER = ''---''"

definition serializeChunk :: "yaml_lib \<Rightarrow> chunk \<Rightarrow> string" where
  "serializeChunk Y c =
     FRONTMATTER_DELIMITER @ [nl] @ stringifyYaml Y (headerOf c)
       @ FRONTMATTER_DELIMITER @ [nl, nl] @ content c"

text \<open>The object \<^verbatim>\<open>parseChunkFile\<close> returns for a header object and the text after it.\<close>

definition chunkOfHeader :: "meta \<Rightarrow> string \<Rightarrow> chunk" where
  "chunkOfHeader m chunkContent = \<lparr>
     id' = m_id m,
     content = chunkContent,
     summary = m_summary m,
     type' = m_type m,
     epistemic = m_epistemic m,
     status = m_status m,
     surface_tags = (case m_surface_tags m of Some ts \<Rightarrow> ts | None \<Rightarrow> []),
     related =
       (case m_related m of
          None \<Rightarrow> []
        | Some rs \<Rightarrow> filter (\<lambda>r. rel_id r \<noteq> [] \<and> rel_reason r \<noteq> []) rs),
     created = m_created m,
     updated = m_updated m,
     accessed = m_accessed m,
     retrieved_count = (case m_retrieved_count m of Some n \<Rightarrow> n | None \<Rightarrow> 0),
     relevant_count = (case m_relevant_count m of Some n \<Rightarrow> n | None \<Rightarrow> 0),
     last_relevant_date =
       (if truthy (m_last_relevant_date m) then m_last_relevant_date m else None),
     expires = m_expires m,
     context_notes = m_context_notes m \<rparr>"

definition parseChunkFile :: "yaml_lib \<Rightarrow> string \<Rightarrow> string \<Rightarrow> error + chunk" where
  "parseChunkFile Y text filename =
     (let lines = split_nl text in
      if take 1 lines \<noteq> [FRONTMATTER_DELIMITER] then Inl InvalidFormat
      else (case indexOf lines FRONTMATTER_DELIMITER 1 of
              None \<Rightarrow> Inl InvalidFormat
            | Some endIndex \<Rightarrow>
                (case parseYaml Y (joinWith [nl] (slice' lines 1 endIndex)) of
                   None \<Rightarrow> Inl YamlError
                 | Some m \<Rightarrow>
                     Inr (chunkOfHeader m
                            (trim (joinWith [nl] (drop (endIndex + 1) lines)))))))"

section \<open>Chunk storage\<close>

text \<open>
  \<^verbatim>\<open>class ChunkStorage\<close> with the directory it owns: \<open>files\<close> maps the name of each file
  of the chunk directory to its text, \<open>idToFilename\<close> is the in-memory map of the class.
  Failures of the disk other than a missing file are not part of the model.
\<close>

record chunk_storage =
  files :: "string \<rightharpoonup> string"
  idToFilename :: "string \<rightharpoonup> string"

text \<open>
  The loop of \<^verbatim>\<open>buildIndex\<close> over the names \<^verbatim>\<open>fs.readdir\<close> returned, in the order it
  returned them.
\<close>

fun buildIndexLoop :: "string list \<Rightarrow> (string \<rightharpoonup> string) \<Rightarrow> (string \<rightharpoonup> string)" where
  "buildIndexLoop [] m = m"
| "buildIndexLoop (file # rest) m =
     (if endsWith file ''.md''
      then (let i = beforeDash file in
            if i \<noteq> [] \<and> length i = 6 then buildIndexLoop rest (m(i \<mapsto> file))
            else buildIndexLoop rest m)
      else buildIndexLoop rest m)"

definition buildIndex :: "string list \<Rightarrow> chunk_storage \<Rightarrow> chunk_storage" where
  "buildIndex listing st = st\<lparr>idToFilename := buildIndexLoop listing Map.empty\<rparr>"

definition reloadIndex :: "string list \<Rightarrow> chunk_storage \<Rightarrow> chunk_storage" where
  "reloadIndex listing st = buildIndex listing st"

definition exists :: "chunk_storage \<Rightarrow> string \<Rightarrow> bool" where
  "exists st i = (idToFilename st i \<noteq> None)"

text \<open>
  \<^verbatim>\<open>generateUniqueId\<close>; \<open>draws k\<close> are the random bytes of the \<open>k\<close>-th call of
  \<^verbatim>\<open>generateId\<close> during this call.
\<close>

definition generateUniqueId :: "chunk_storage \<Rightarrow> (nat \<Rightarrow> bytes3) \<Rightarrow> error + string" where
  "generateUniqueId st draws =
     (case generateLoop (exists st) (\<lambda>k. generateId (draws k)) (generateId (draws 0)) 0 of
        (i, attempts) \<Rightarrow> if attempts \<ge> 100 then Inl IdExhausted else Inr i)"

text \<open>
  \<^verbatim>\<open>read\<close> answers \<^verbatim>\<open>null\<close> for an unknown id, and also when reading or parsing the
  file throws (the \<^verbatim>\<open>catch\<close> around both).
\<close>

definition read :: "yaml_lib \<Rightarrow> string \<Rightarrow> chunk_storage \<Rightarrow> chunk option" where
  "read Y i st =
     (case idToFilename st i of
        None \<Rightarrow> None
      | Some filename \<Rightarrow>
          if filename = [] then None
          else (case files st filename of
                  None \<Rightarrow> None
                | Some text \<Rightarrow>
                    (case parseChunkFile Y text filename of
                       Inl err \<Rightarrow> None
                     | Inr c \<Rightarrow> Some c)))"

fun readMany :: "yaml_lib \<Rightarrow> string list \<Rightarrow> chunk_storage \<Rightarrow> chunk list" where
  "readMany Y [] st = []"
| "readMany Y (i # ids) st =
     (case read Y i st of
        None \<Rightarrow> readMany Y ids st
      | Some c \<Rightarrow> c # readMany Y ids st)"

definition write' :: "yaml_lib \<Rightarrow> chunk \<Rightarrow> chunk_storage \<Rightarrow> chunk_storage" where
  "write' Y c st =
     (let filename = getFilename (id' c) (summary c);
          text = serializeChunk Y c;
          fs1 = (case idToFilename st (id' c) of
                   None \<Rightarrow> files st
                 | Some oldFilename \<Rightarrow>
                     if oldFilename \<noteq> [] \<and> oldFilename \<noteq> filename
                     then (files st)(oldFilename := None)
                     else files st)
      in st\<lparr>files := fs1(filename \<mapsto> text),
            idToFilename := (idToFilename st)(id' c \<mapsto> filename)\<rparr>)"

section \<open>Semantic index\<close>

text \<open>
  The embedder and the HNSW index are outside the repository. What they answer during one
  call is a parameter: \<open>getEmbedding\<close> gives the vector of a text, or \<open>None\<close> where it
  throws; \<open>addPoint\<close> and \<open>markDelete\<close> say whether the call returns normally;
  \<open>searchKnn\<close> gives the neighbours with their distances, nearest first, as one list of
  pairs (the package returns two arrays of one length), or \<open>None\<close> where it throws.
\<close>

record backend =
  getEmbedding :: "string \<Rightarrow> real list option"
  addPoint :: "real list \<Rightarrow> nat \<Rightarrow> bool"
  markDelete :: "nat \<Rightarrow> bool"
  searchKnn :: "real list \<Rightarrow> int \<Rightarrow> (nat \<times> real) list option"

text \<open>
  The fields of \<^verbatim>\<open>class SemanticIndex\<close> that the operations below read or write.
  \<open>hasIndex\<close> is \<^verbatim>\<open>this.index !== null\<close>. \<open>deletedIndices\<close> is a \<^verbatim>\<open>Set\<close>, which
  JavaScript iterates in insertion order: the list holds its members in that order.
\<close>

record semantic_index =
  maxElements :: nat
  idToIndex :: "string \<rightharpoonup> nat"
  indexToId :: "nat \<rightharpoonup> string"
  nextIndex :: nat
  deletedIndices :: "nat list"
  hasIndex :: bool

text \<open>\<^verbatim>\<open>Set.add\<close> and \<^verbatim>\<open>Set.delete\<close> on the insertion-ordered list.\<close>

definition setAdd :: "'a \<Rightarrow> 'a list \<Rightarrow> 'a list" where
  "setAdd x xs = (if x \<in> set xs then xs else xs @ [x])"

definition setDelete :: "'a \<Rightarrow> 'a list \<Rightarrow> 'a list" where
  "setDelete x xs = removeAll x xs"

definition reset :: "semantic_index \<Rightarrow> semantic_index" where
  "reset s = s\<lparr>hasIndex := True, idToIndex := Map.empty, indexToId := Map.empty,
               deletedIndices := [], nextIndex := 0\<rparr>"

definition removeDocument :: "backend \<Rightarrow> string \<Rightarrow> semantic_index \<Rightarrow> bool \<times> semantic_index" where
  "removeDocument B i s =
     (if \<not> hasIndex s then (False, s)
      else (case idToIndex s i of
              None \<Rightarrow> (False, s)
            | Some numIndex \<Rightarrow>
                if \<not> markDelete B numIndex then (False, s)
                else (True, s\<lparr>idToIndex := (idToIndex s)(i := None),
                               indexToId := (indexToId s)(numIndex := None),
                               deletedIndices := setAdd numIndex (deletedIndices s)\<rparr>)))"

text \<open>
  The slot \<^verbatim>\<open>addDocument\<close> takes: the first member of \<^verbatim>\<open>deletedIndices\<close> in iteration
  order, which is then deleted from the set, or \<^verbatim>\<open>this.nextIndex++\<close>.
\<close>

definition allocate :: "semantic_index \<Rightarrow> nat \<times> semantic_index" where
  "allocate s =
     (case deletedIndices s of
        numIndex # rest \<Rightarrow> (numIndex, s\<lparr>deletedIndices := setDelete numIndex (deletedIndices s)\<rparr>)
      | [] \<Rightarrow> (nextIndex s, s\<lparr>nextIndex := nextIndex s + 1\<rparr>))"

definition addDocument ::
  "backend \<Rightarrow> string \<Rightarrow> string \<Rightarrow> semantic_index \<Rightarrow> (error + unit) \<times> semantic_index" where
  "addDocument B i text s =
     (if \<not> hasIndex s then (Inl IndexNotInitialized, s)
      else
        (let s1 = (if idToIndex s i \<noteq> None then snd (removeDocument B i s) else s);
             (numIndex, s2) = allocate s1
         in if numIndex \<ge> maxElements s2 then (Inl CapacityExceeded, s2)
            else (case getEmbedding B text of
                    None \<Rightarrow> (Inl EmbedderUnavailable, s2)
                  | Some embedding \<Rightarrow>
                      if \<not> addPoint B embedding numIndex then (Inl BackendError, s2)
                      else (Inr (), s2\<lparr>idToIndex := (idToIndex s2)(i \<mapsto> numIndex),
                                       indexToId := (indexToId s2)(numIndex \<mapsto> i)\<rparr>))))"

definition updateDocument ::
  "backend \<Rightarrow> string \<Rightarrow> string \<Rightarrow> semantic_index \<Rightarrow> (error + unit) \<times> semantic_index" where
  "updateDocument B i text s = addDocument B i text (snd (removeDocument B i s))"

definition getDocumentCount :: "semantic_index \<Rightarrow> nat" where
  "getDocumentCount s = card (dom (idToIndex s))"

text \<open>
  The loop of \<^verbatim>\<open>SemanticIndex.query\<close> over the neighbours: a slot is kept when
  \<^verbatim>\<open>indexToId\<close> maps it to a truthy id.
\<close>

fun mapSlots :: "(nat \<rightharpoonup> string) \<Rightarrow> (nat \<times> real) list \<Rightarrow> (string \<times> real) list" where
  "mapSlots m [] = []"
| "mapSlots m ((numIndex, distance) # rest) =
     (if truthy (m numIndex) then (the (m numIndex), distance) # mapSlots m rest
      else mapSlots m rest)"

definition query ::
  "backend \<Rightarrow> string \<Rightarrow> int \<Rightarrow> semantic_index \<Rightarrow> error + (string \<times> real) list" where
  "query B text k s =
     (if \<not> hasIndex s then Inl IndexNotInitialized
      else (let actualK = min k (int (getDocumentCount s)) in
            if actualK = 0 then Inr []
            else (case getEmbedding B text of
                    None \<Rightarrow> Inl EmbedderUnavailable
                  | Some queryEmbedding \<Rightarrow>
                      (case searchKnn B queryEmbedding actualK of
                         None \<Rightarrow> Inl BackendError
                       | Some result \<Rightarrow> Inr (mapSlots (indexToId s) result)))))"

section \<open>Audit log\<close>

datatype audit_action = STORE | UPDATE | QUERY | RETRIEVE | RELEVANT | OBSOLETE | INIT | RELOAD

text \<open>
  The \<^verbatim>\<open>details\<close> argument of \<^verbatim>\<open>AuditLog.log\<close>, one constructor for each shape a caller
  passes. The log file is the list of its entries; how \<^verbatim>\<open>JSON.stringify\<close> renders an entry
  as a line is not modelled.
\<close>

datatype audit_details =
    StoreDetails string chunk_type epistemic_status "string list"
  | UpdateDetails pchunk
  | QueryDetails string "string list"
  | IdList "string list"
  | Reason string

record audit_entry =
  timestamp :: string
  action :: audit_action
  chunkId :: "string option"
  details :: "audit_details option"

section \<open>The world during one call\<close>

text \<open>
  What a single call of an orchestrator operation reads from outside the program:
  \<open>now\<close> is \<^verbatim>\<open>new Date().toISOString()\<close> as the operation reads it, \<open>draws\<close> are the
  random bytes of \<^verbatim>\<open>generateId\<close>, \<open>appendTime k\<close> and \<open>appendFails k\<close> are the clock at the
  \<open>k\<close>-th \<^verbatim>\<open>fs.appendFile\<close> of the call and whether that append throws, \<open>lib\<close> is what the
  embedder and the HNSW index answer, and \<open>listing\<close> is what \<^verbatim>\<open>fs.readdir\<close> returns.
\<close>

record env =
  now :: string
  draws :: "nat \<Rightarrow> bytes3"
  appendTime :: "nat \<Rightarrow> string"
  appendFails :: "nat \<Rightarrow> bool"
  lib :: backend
  listing :: "string list"

text \<open>
  \<^verbatim>\<open>AuditLog.log\<close>: the entry is appended with \<^verbatim>\<open>await fs.appendFile\<close>, outside any
  \<^verbatim>\<open>try\<close>; when the append throws, \<^verbatim>\<open>log\<close> throws.
\<close>

definition log' ::
  "env \<Rightarrow> nat \<Rightarrow> audit_action \<Rightarrow> string option \<Rightarrow> audit_details option
     \<Rightarrow> audit_entry list \<Rightarrow> error + audit_entry list" where
  "log' e k a cid d lg =
     (if appendFails e k then Inl IoError
      else Inr (lg @ [\<lparr>timestamp = appendTime e k, action = a, chunkId = cid, details = d\<rparr>]))"

section \<open>Memory store\<close>

record memory_store =
  storage :: chunk_storage
  audit :: "audit_entry list"
  index :: semantic_index

definition buildEmbeddingText :: "chunk \<Rightarrow> string" where
  "buildEmbeddingText c =
     joinWith [nl, nl] [summary c, joinWith '', '' (surface_tags c), content c]"

text \<open>The first of \<^verbatim>\<open>REQUIRED_FIELDS\<close> that is not a key of the metadata.\<close>

definition missingField :: "pchunk \<Rightarrow> string option" where
  "missingField m =
     (if p_summary m = None then Some ''summary''
      else if p_type m = None then Some ''type''
      else if p_epistemic m = None then Some ''epistemic''
      else if p_surface_tags m = None then Some ''surface_tags''
      else None)"

text \<open>
  \<^verbatim>\<open>{ ...getChunkDefaults(), ...metadata, id, content }\<close> for metadata that has the required
  keys: the defaults, completed by the required keys so that they form a chunk, then the
  metadata over them, then \<^verbatim>\<open>id\<close> and \<^verbatim>\<open>content\<close>.
\<close>

definition newChunk :: "string \<Rightarrow> string \<Rightarrow> string \<Rightarrow> pchunk \<Rightarrow> chunk" where
  "newChunk t i body m =
     (spread \<lparr> id' = i, content = body, summary = the (p_summary m), type' = the (p_type m),
               epistemic = the (p_epistemic m), status = Active,
               surface_tags = the (p_surface_tags m), related = [],
               created = t, updated = t, accessed = t,
               retrieved_count = 0, relevant_count = 0, last_relevant_date = None,
               expires = None, context_notes = None \<rparr> m)
       \<lparr>id' := i, content := body\<rparr>"

definition storeChunk ::
  "yaml_lib \<Rightarrow> env \<Rightarrow> string \<Rightarrow> pchunk \<Rightarrow> memory_store \<Rightarrow> (error + string) \<times> memory_store" where
  "storeChunk Y e body metadata st =
     (case missingField metadata of
        Some field \<Rightarrow> (Inl (MissingRequiredField field), st)
      | None \<Rightarrow>
         (case generateUniqueId (storage st) (draws e) of
            Inl err \<Rightarrow> (Inl err, st)
          | Inr i \<Rightarrow>
             (let c = newChunk (now e) i body metadata;
                  st1 = st\<lparr>storage := write' Y c (storage st)\<rparr>;
                  (r, ix) = addDocument (lib e) i (buildEmbeddingText c) (index st1);
                  st2 = st1\<lparr>index := ix\<rparr>
              in case r of
                   Inl err \<Rightarrow> (Inl err, st2)
                 | Inr u \<Rightarrow>
                    (case log' e 0 STORE (Some i)
                            (Some (StoreDetails (summary c) (type' c) (epistemic c)
                                     (surface_tags c))) (audit st2) of
                       Inl err \<Rightarrow> (Inl err, st2)
                     | Inr lg \<Rightarrow> (Inr i, st2\<lparr>audit := lg\<rparr>)))))"

text \<open>
  The merge of \<^verbatim>\<open>updateChunk\<close>:
  \<^verbatim>\<open>{ ...existing, ...metadata, id, updated: new Date().toISOString() }\<close>, then
  \<^verbatim>\<open>content\<close> when it is given.
\<close>

definition mergeUpdate :: "string \<Rightarrow> string \<Rightarrow> chunk \<Rightarrow> pchunk \<Rightarrow> string option \<Rightarrow> chunk" where
  "mergeUpdate t i existing metadata body =
     (let u = (spread existing metadata)\<lparr>id' := i, updated := t\<rparr>
      in case body of None \<Rightarrow> u | Some b \<Rightarrow> u\<lparr>content := b\<rparr>)"

text \<open>The \<^verbatim>\<open>changes\<close> object that \<^verbatim>\<open>updateChunk\<close> logs.\<close>

definition changesOf :: "pchunk \<Rightarrow> string option \<Rightarrow> pchunk" where
  "changesOf metadata body =
     (case body of
        None \<Rightarrow> metadata
      | Some b \<Rightarrow>
          metadata\<lparr>p_content := Some (take 100 b @ (if length b > 100 then ''...'' else []))\<rparr>)"

definition updateChunk ::
  "yaml_lib \<Rightarrow> env \<Rightarrow> string \<Rightarrow> pchunk \<Rightarrow> string option \<Rightarrow> memory_store
     \<Rightarrow> (error + unit) \<times> memory_store" where
  "updateChunk Y e i metadata body st =
     (case read Y i (storage st) of
        None \<Rightarrow> (Inl (ChunkNotFound i), st)
      | Some existing \<Rightarrow>
         (let c = mergeUpdate (now e) i existing metadata body;
              st1 = st\<lparr>storage := write' Y c (storage st)\<rparr>;
              (r, ix) = updateDocument (lib e) i (buildEmbeddingText c) (index st1);
              st2 = st1\<lparr>index := ix\<rparr>
          in case r of
               Inl err \<Rightarrow> (Inl err, st2)
             | Inr u \<Rightarrow>
                (case log' e 0 UPDATE (Some i) (Some (UpdateDetails (changesOf metadata body)))
                        (audit st2) of
                   Inl err \<Rightarrow> (Inl err, st2)
                 | Inr lg \<Rightarrow> (Inr (), st2\<lparr>audit := lg\<rparr>))))"

text \<open>
  The write-back loop of \<^verbatim>\<open>MemoryStore.query\<close> over the chunks \<^verbatim>\<open>readMany\<close> returned.
\<close>

definition hit :: "string \<Rightarrow> chunk \<Rightarrow> chunk" where
  "hit t c = c\<lparr>retrieved_count := retrieved_count c + 1, accessed := t\<rparr>"

fun writeBack :: "yaml_lib \<Rightarrow> string \<Rightarrow> chunk list \<Rightarrow> chunk_storage \<Rightarrow> chunk_storage" where
  "writeBack Y t [] st = st"
| "writeBack Y t (c # cs) st = writeBack Y t cs (write' Y (hit t c) st)"

text \<open>\<^verbatim>\<open>({ content, ...meta }) => meta\<close>: every key of the chunk but \<^verbatim>\<open>content\<close>.\<close>

definition stripContent :: "chunk \<Rightarrow> pchunk" where
  "stripContent c = \<lparr> p_id = Some (id' c), p_content = None, p_summary = Some (summary c),
     p_type = Some (type' c), p_epistemic = Some (epistemic c), p_status = Some (status c),
     p_surface_tags = Some (surface_tags c), p_related = Some (related c),
     p_created = Some (created c), p_updated = Some (updated c),
     p_accessed = Some (accessed c), p_retrieved_count = Some (retrieved_count c),
     p_relevant_count = Some (relevant_count c),
     p_last_relevant_date = Some (last_relevant_date c), p_expires = Some (expires c),
     p_context_notes = Some (context_notes c) \<rparr>"

definition queryStore ::
  "yaml_lib \<Rightarrow> env \<Rightarrow> string \<Rightarrow> int \<Rightarrow> memory_store \<Rightarrow> (error + pchunk list) \<times> memory_store" where
  "queryStore Y e searchText limit st =
     (case query (lib e) searchText limit (index st) of
        Inl err \<Rightarrow> (Inl err, st)
      | Inr results \<Rightarrow>
         (let ids = map fst results in
          if length ids = 0 then (Inr [], st)
          else
           (let chunks = readMany Y ids (storage st);
                st1 = st\<lparr>storage := writeBack Y (now e) chunks (storage st)\<rparr>
            in case log' e 0 QUERY None (Some (QueryDetails searchText ids)) (audit st1) of
                 Inl err \<Rightarrow> (Inl err, st1)
               | Inr lg1 \<Rightarrow>
                  (case log' e 1 RETRIEVE None (Some (IdList ids)) lg1 of
                     Inl err \<Rightarrow> (Inl err, st1\<lparr>audit := lg1\<rparr>)
                   | Inr lg2 \<Rightarrow>
                       (Inr (map (\<lambda>c. stripContent (hit (now e) c)) chunks),
                        st1\<lparr>audit := lg2\<rparr>)))))"

text \<open>The loop of \<^verbatim>\<open>markRelevant\<close>: read, count, write, one id after the other.\<close>

definition relevant :: "string \<Rightarrow> chunk \<Rightarrow> chunk" where
  "relevant t c = c\<lparr>relevant_count := relevant_count c + 1, last_relevant_date := Some t\<rparr>"

fun relevantLoop :: "yaml_lib \<Rightarrow> string \<Rightarrow> string list \<Rightarrow> chunk_storage \<Rightarrow> chunk_storage" where
  "relevantLoop Y t [] st = st"
| "relevantLoop Y t (i # ids) st =
     (case read Y i st of
        None \<Rightarrow> relevantLoop Y t ids st
      | Some c \<Rightarrow> relevantLoop Y t ids (write' Y (relevant t c) st))"

definition markRelevant ::
  "yaml_lib \<Rightarrow> env \<Rightarrow> string list \<Rightarrow> memory_store \<Rightarrow> (error + unit) \<times> memory_store" where
  "markRelevant Y e ids st =
     (let st1 = st\<lparr>storage := relevantLoop Y (now e) ids (storage st)\<rparr>
      in case log' e 0 RELEVANT None (Some (IdList ids)) (audit st1) of
           Inl err \<Rightarrow> (Inl err, st1)
         | Inr lg \<Rightarrow> (Inr (), st1\<lparr>audit := lg\<rparr>))"

definition obsoleteNote :: "string \<Rightarrow> string" where
  "obsoleteNote reason = ''[Obsoleted: '' @ reason @ '']''"

definition obsolete :: "string \<Rightarrow> string \<Rightarrow> chunk \<Rightarrow> chunk" where
  "obsolete t reason c =
     c\<lparr>status := Archived, updated := t,
       context_notes :=
         (if truthy (context_notes c)
          then Some (the (context_notes c) @ [nl] @ obsoleteNote reason)
          else Some (obsoleteNote reason))\<rparr>"

definition markObsolete ::
  "yaml_lib \<Rightarrow> env \<Rightarrow> string \<Rightarrow> string \<Rightarrow> memory_store \<Rightarrow> (error + unit) \<times> memory_store" where
  "markObsolete Y e i reason st =
     (case read Y i (storage st) of
        None \<Rightarrow> (Inl (ChunkNotFound i), st)
      | Some c \<Rightarrow>
         (let st1 = st\<lparr>storage := write' Y (obsolete (now e) reason c) (storage st)\<rparr>
          in case log' e 0 OBSOLETE (Some i) (Some (Reason reason)) (audit st1) of
               Inl err \<Rightarrow> (Inl err, st1)
             | Inr lg \<Rightarrow> (Inr (), st1\<lparr>audit := lg\<rparr>)))"

section \<open>Watcher reconciliation\<close>

text \<open>
  \<^verbatim>\<open>handleFileChange\<close> and \<^verbatim>\<open>handleFileDelete\<close>. The watcher has already seen the
  directory change; the handlers bring the in-memory state after it.
\<close>

definition handleFileChange ::
  "yaml_lib \<Rightarrow> env \<Rightarrow> string \<Rightarrow> memory_store \<Rightarrow> (error + unit) \<times> memory_store" where
  "handleFileChange Y e filePath st =
     (let st1 = st\<lparr>storage := reloadIndex (listing e) (storage st)\<rparr>;
          filename = basename filePath;
          i = beforeDash filename
      in if i = [] \<or> length i \<noteq> 6 then (Inr (), st1)
         else (case read Y i (storage st1) of
                 None \<Rightarrow> (Inr (), st1)
               | Some c \<Rightarrow>
                  (let (r, ix) = updateDocument (lib e) i (buildEmbeddingText c) (index st1);
                       st2 = st1\<lparr>index := ix\<rparr>
                   in case r of
                        Inl err \<Rightarrow> (Inl err, st2)
                      | Inr u \<Rightarrow>
                         (case log' e 0 RELOAD (Some i) None (audit st2) of
                            Inl err \<Rightarrow> (Inl err, st2)
                          | Inr lg \<Rightarrow> (Inr (), st2\<lparr>audit := lg\<rparr>)))))"

definition handleFileDelete :: "env \<Rightarrow> string \<Rightarrow> memory_store \<Rightarrow> memory_store" where
  "handleFileDelete e filePath st =
     (let filename = basename filePath;
          i = beforeDash filename
      in if i = [] \<or> length i \<noteq> 6 then st
         else st\<lparr>storage := reloadIndex (listing e) (storage st),
                 index := snd (removeDocument (lib e) i (index st))\<rparr>)"

section \<open>Sequences of operations\<close>

datatype operation =
    StoreChunk string pchunk
  | UpdateChunk string pchunk "string option"
  | Query string int
  | MarkRelevant "string list"
  | MarkObsolete string string

text \<open>The state an operation leaves, whether it returns or throws.\<close>

fun step :: "yaml_lib \<Rightarrow> env \<times> operation \<Rightarrow> memory_store \<Rightarrow> memory_store" where
  "step Y (e, StoreChunk body metadata) st = snd (storeChunk Y e body metadata st)"
| "step Y (e, UpdateChunk i metadata body) st = snd (updateChunk Y e i metadata body st)"
| "step Y (e, Query searchText limit) st = snd (queryStore Y e searchText limit st)"
| "step Y (e, MarkRelevant ids) st = snd (markRelevant Y e ids st)"
| "step Y (e, MarkObsolete i reason) st = snd (markObsolete Y e i reason st)"


text \<open>
  The store after \<^verbatim>\<open>initialize()\<close> on an empty data directory: no file, no id, the index
  of \<^verbatim>\<open>new SemanticIndex({ maxElements: 10000 })\<close> after \<^verbatim>\<open>reset()\<close>. The audit log is
  taken empty; no operation reads it.
\<close>

definition emptyStore :: memory_store where
  "emptyStore = \<lparr>
     storage = \<lparr>files = Map.empty, idToFilename = Map.empty\<rparr>,
     audit = [],
     index = reset \<lparr>maxElements = 10000, idToIndex = Map.empty, indexToId = Map.empty,
                     nextIndex = 0, deletedIndices = [], hasIndex = False\<rparr> \<rparr>"

section \<open>What is assumed of the YAML package\<close>

text \<open>
  \<^verbatim>\<open>stringifyYaml\<close> ends its text with a line break and writes no line that is the
  delimiter, and \<^verbatim>\<open>parseYaml\<close> reads the text without that last line break back to the
  object. \<open>yamlRoundTrip Y m\<close> says so for one header object, \<open>yamlOk Y\<close> for all.
\<close>

definition yamlRoundTrip :: "yaml_lib \<Rightarrow> meta \<Rightarrow> bool" where
  "yamlRoundTrip Y m =
     (let t = stringifyYaml Y m in
      t \<noteq> [] \<and> last t = nl
      \<and> FRONTMATTER_DELIMITER \<notin> set (split_nl (butlast t))
      \<and> parseYaml Y (butlast t) = Some m)"

definition yamlOk :: "yaml_lib \<Rightarrow> bool" where
  "yamlOk Y = (\<forall>m. yamlRoundTrip Y m)"

text \<open>
  \<^verbatim>\<open>parseChunkFile\<close> hands the package the header lines joined again, that is the text
  \<^verbatim>\<open>stringifyYaml\<close> wrote without its final line break. What the package reads from that
  text need not be the whole object: a value at the end of the header that depends on the
  final line break, such as a block of text that ends in empty lines, is read back
  shortened. The weaker assumptions below say only what the code needs.

  \<open>yamlWrites Y m\<close>: the text written for \<open>m\<close> ends with a line break and has no line that
  is the delimiter. Nothing is said about reading.
\<close>

definition yamlWrites :: "yaml_lib \<Rightarrow> meta \<Rightarrow> bool" where
  "yamlWrites Y m =
     (let t = stringifyYaml Y m in
      t \<noteq> [] \<and> last t = nl \<and> FRONTMATTER_DELIMITER \<notin> set (split_nl (butlast t)))"



text \<open>
  \<open>yamlReadsCounters Y m\<close>: the same for the id and the two counters only, and
  \<open>yamlCountersOk Y\<close>: so for every header whose id has six characters.
\<close>

definition countersAgree :: "meta \<Rightarrow> meta \<Rightarrow> bool" where
  "countersAgree m m' =
     (m_id m' = m_id m \<and> m_retrieved_count m' = m_retrieved_count m
      \<and> m_relevant_count m' = m_relevant_count m)"

definition yamlReadsCounters :: "yaml_lib \<Rightarrow> meta \<Rightarrow> bool" where
  "yamlReadsCounters Y m =
     (yamlWrites Y m
      \<and> (\<exists>m'. parseYaml Y (butlast (stringifyYaml Y m)) = Some m' \<and> countersAgree m m'))"

definition yamlCountersOk :: "yaml_lib \<Rightarrow> bool" where
  "yamlCountersOk Y = (\<forall>m. length (m_id m) = 6 \<longrightarrow> yamlReadsCounters Y m)"

section \<open>A header syntax that meets the assumptions\<close>

text \<open>
  A small header syntax, used to show that the assumptions on the YAML package can be
  met and to run the operations on examples. It writes a header as one line over the two
  characters \<^verbatim>\<open>x\<close> and \<^verbatim>\<open>;\<close>: a number \<open>n\<close> is \<open>n\<close> times \<^verbatim>\<open>x\<close> and then \<^verbatim>\<open>;\<close>, a list is its
  length and then its members, a character is its code.
\<close>

definition encNat :: "nat \<Rightarrow> string" where
  "encNat n = replicate n CHR ''x'' @ '';''"

definition decNat :: "string \<Rightarrow> nat \<times> string" where
  "decNat s = (length (takeWhile (\<lambda>c. c = CHR ''x'') s),
               drop 1 (dropWhile (\<lambda>c. c = CHR ''x'') s))"

definition encList :: "('a \<Rightarrow> string) \<Rightarrow> 'a list \<Rightarrow> string" where
  "encList enc xs = encNat (length xs) @ concat (map enc xs)"

fun decMany :: "(string \<Rightarrow> 'a \<times> string) \<Rightarrow> nat \<Rightarrow> string \<Rightarrow> 'a list \<times> string" where
  "decMany dec 0 s = ([], s)"
| "decMany dec (Suc n) s =
     (case dec s of (x, s1) \<Rightarrow> (case decMany dec n s1 of (xs, s2) \<Rightarrow> (x # xs, s2)))"

definition decList :: "(string \<Rightarrow> 'a \<times> string) \<Rightarrow> string \<Rightarrow> 'a list \<times> string" where
  "decList dec s = (case decNat s of (n, s1) \<Rightarrow> decMany dec n s1)"

definition encChar :: "char \<Rightarrow> string" where
  "encChar c = encNat (of_char c)"

definition decChar :: "string \<Rightarrow> char \<times> string" where
  "decChar s = (case decNat s of (n, s1) \<Rightarrow> (char_of n, s1))"

definition encString :: "string \<Rightarrow> string" where
  "encString = encList encChar"

definition decString :: "string \<Rightarrow> string \<times> string" where
  "decString = decList decChar"

definition encOption :: "('a \<Rightarrow> string) \<Rightarrow> 'a option \<Rightarrow> string" where
  "encOption enc v = (case v of None \<Rightarrow> encNat 0 | Some x \<Rightarrow> encNat 1 @ enc x)"

definition decOption :: "(string \<Rightarrow> 'a \<times> string) \<Rightarrow> string \<Rightarrow> 'a option \<times> string" where
  "decOption dec s =
     (case decNat s of
        (n, s1) \<Rightarrow> if n = 0 then (None, s1) else (case dec s1 of (x, s2) \<Rightarrow> (Some x, s2)))"

definition encInt :: "int \<Rightarrow> string" where
  "encInt i = (if i < 0 then encNat 1 @ encNat (nat (- i)) else encNat 0 @ encNat (nat i))"

definition decInt :: "string \<Rightarrow> int \<times> string" where
  "decInt s =
     (case decNat s of
        (sign, s1) \<Rightarrow> (case decNat s1 of
           (n, s2) \<Rightarrow> (if sign = 0 then int n else - int n, s2)))"

definition encType :: "chunk_type \<Rightarrow> string" where
  "encType t = encNat (case t of Framework \<Rightarrow> 0 | Insight \<Rightarrow> 1 | Fact \<Rightarrow> 2 | Log \<Rightarrow> 3
                        | Emotional \<Rightarrow> 4 | Goal \<Rightarrow> 5 | Question \<Rightarrow> 6)"

definition decType :: "string \<Rightarrow> chunk_type \<times> string" where
  "decType s =
     (case decNat s of
        (n, s1) \<Rightarrow> (if n = 0 then Framework else if n = 1 then Insight else if n = 2 then Fact
                    else if n = 3 then Log else if n = 4 then Emotional
                    else if n = 5 then Goal else Question, s1))"

definition encEpistemic :: "epistemic_status \<Rightarrow> string" where
  "encEpistemic t = encNat (case t of Established \<Rightarrow> 0 | Working \<Rightarrow> 1 | Speculative \<Rightarrow> 2
                             | Deprecated \<Rightarrow> 3)"

definition decEpistemic :: "string \<Rightarrow> epistemic_status \<times> string" where
  "decEpistemic s =
     (case decNat s of
        (n, s1) \<Rightarrow> (if n = 0 then Established else if n = 1 then Working
                    else if n = 2 then Speculative else Deprecated, s1))"

definition encStatus :: "lifecycle_status \<Rightarrow> string" where
  "encStatus t = encNat (case t of Active \<Rightarrow> 0 | Dormant \<Rightarrow> 1 | Review \<Rightarrow> 2 | Archived \<Rightarrow> 3)"

definition decStatus :: "string \<Rightarrow> lifecycle_status \<times> string" where
  "decStatus s =
     (case decNat s of
        (n, s1) \<Rightarrow> (if n = 0 then Active else if n = 1 then Dormant
                    else if n = 2 then Review else Archived, s1))"

definition encRelation :: "chunk_relation \<Rightarrow> string" where
  "encRelation r = encString (rel_id r) @ encString (rel_reason r)"

definition decRelation :: "string \<Rightarrow> chunk_relation \<times> string" where
  "decRelation s =
     (case decString s of
        (i, s1) \<Rightarrow> (case decString s1 of
           (r, s2) \<Rightarrow> (\<lparr>rel_id = i, rel_reason = r\<rparr>, s2)))"

definition encMeta :: "meta \<Rightarrow> string" where
  "encMeta m =
     encString (m_id m) @ encString (m_summary m) @ encType (m_type m)
     @ encEpistemic (m_epistemic m) @ encStatus (m_status m)
     @ encOption (encList encString) (m_surface_tags m)
     @ encString (m_created m) @ encString (m_updated m) @ encString (m_accessed m)
     @ encOption encInt (m_retrieved_count m) @ encOption encInt (m_relevant_count m)
     @ encOption encString (m_last_relevant_date m)
     @ encOption (encList encRelation) (m_related m)
     @ encOption encString (m_expires m) @ encOption encString (m_context_notes m)"

definition decMeta :: "string \<Rightarrow> meta" where
  "decMeta s0 =
     (case decString s0 of (v1, s1) \<Rightarrow>
      case decString s1 of (v2, s2) \<Rightarrow>
      case decType s2 of (v3, s3) \<Rightarrow>
      case decEpistemic s3 of (v4, s4) \<Rightarrow>
      case decStatus s4 of (v5, s5) \<Rightarrow>
      case decOption (decList decString) s5 of (v6, s6) \<Rightarrow>
      case decString s6 of (v7, s7) \<Rightarrow>
      case decString s7 of (v8, s8) \<Rightarrow>
      case decString s8 of (v9, s9) \<Rightarrow>
      case decOption decInt s9 of (v10, s10) \<Rightarrow>
      case decOption decInt s10 of (v11, s11) \<Rightarrow>
      case decOption decString s11 of (v12, s12) \<Rightarrow>
      case decOption (decList decRelation) s12 of (v13, s13) \<Rightarrow>
      case decOption decString s13 of (v14, s14) \<Rightarrow>
      case decOption decString s14 of (v15, s15) \<Rightarrow>
        \<lparr> m_id = v1, m_summary = v2, m_type = v3, m_epistemic = v4, m_status = v5,
          m_surface_tags = v6, m_created = v7, m_updated = v8, m_accessed = v9,
          m_retrieved_count = v10, m_relevant_count = v11, m_last_relevant_date = v12,
          m_related = v13, m_expires = v14, m_context_notes = v15 \<rparr>)"

definition plainYaml :: yaml_lib where
  "plainYaml = \<lparr> stringifyYaml = (\<lambda>m. encMeta m @ [nl]),
                 parseYaml = (\<lambda>t. Some (decMeta t)) \<rparr>"



section \<open>Invariants and specification-level notions\<close>

text \<open>
  The invariant of the string-id facade: the two maps are finite and inverse to each
  other, no deleted slot is mapped, and every mapped or deleted slot was handed out by
  \<open>nextIndex\<close>.
\<close>

definition facadeInv :: "semantic_index \<Rightarrow> bool" where
  "facadeInv s =
     ((\<forall>i n. idToIndex s i = Some n \<longleftrightarrow> indexToId s n = Some i)
      \<and> finite (dom (idToIndex s))
      \<and> (\<forall>n \<in> set (deletedIndices s). indexToId s n = None)
      \<and> (\<forall>n. indexToId s n \<noteq> None \<or> n \<in> set (deletedIndices s) \<longrightarrow> n < nextIndex s))"

text \<open>Every mapped or deleted slot is below the capacity.\<close>

definition withinCapacity :: "semantic_index \<Rightarrow> bool" where
  "withinCapacity s =
     (\<forall>n. indexToId s n \<noteq> None \<or> n \<in> set (deletedIndices s) \<longrightarrow> n < maxElements s)"

text \<open>
  The free slots \<^verbatim>\<open>addDocument\<close> can choose from, in the order the set iterates them: the
  deleted slots, and last the slot of the document itself when it is already present.
\<close>

definition freeSlots :: "semantic_index \<Rightarrow> string \<Rightarrow> nat list" where
  "freeSlots s i = deletedIndices s @ (case idToIndex s i of None \<Rightarrow> [] | Some n \<Rightarrow> [n])"

definition firstFreeSlot :: "semantic_index \<Rightarrow> string \<Rightarrow> nat" where
  "firstFreeSlot s i = (case freeSlots s i of [] \<Rightarrow> nextIndex s | n # rest \<Rightarrow> n)"

text \<open>
  What the backend is expected to answer to \<^verbatim>\<open>searchKnn(v, k)\<close>: at most \<open>k\<close> neighbours,
  each slot once, nearest first.
\<close>

definition knnContract :: "backend \<Rightarrow> bool" where
  "knnContract B =
     (\<forall>v k res. searchKnn B v k = Some res \<longrightarrow>
        int (length res) \<le> k \<and> distinct (map fst res) \<and> sorted (map snd res))"


text \<open>What a chunk reads back as after it was written: the effect of the codec on it.\<close>

definition asStored :: "chunk \<Rightarrow> chunk" where
  "asStored c = c\<lparr>
     content := trim (content c),
     related := filter (\<lambda>r. rel_id r \<noteq> [] \<and> rel_reason r \<noteq> []) (related c),
     last_relevant_date := (if truthy (last_relevant_date c) then last_relevant_date c else None),
     expires := (if truthy (expires c) then expires c else None),
     context_notes := (if truthy (context_notes c) then context_notes c else None)\<rparr>"

text \<open>
  The chunks the codec leaves as they are: no white space around the content, no empty
  string in an optional field or in a relation.
\<close>

definition codecStable :: "chunk \<Rightarrow> bool" where
  "codecStable c =
     (trim (content c) = content c
      \<and> (\<forall>r \<in> set (related c). rel_id r \<noteq> [] \<and> rel_reason r \<noteq> [])
      \<and> last_relevant_date c \<noteq> Some []
      \<and> expires c \<noteq> Some []
      \<and> context_notes c \<noteq> Some [])"





text \<open>The error an operation throws, \<open>None\<close> when it returns.\<close>

definition thrown :: "(error + 'a) \<times> memory_store \<Rightarrow> error option" where
  "thrown r = (case fst r of Inl err \<Rightarrow> Some err | Inr v \<Rightarrow> None)"

fun failure :: "yaml_lib \<Rightarrow> env \<times> operation \<Rightarrow> memory_store \<Rightarrow> error option" where
  "failure Y (e, StoreChunk body metadata) st = thrown (storeChunk Y e body metadata st)"
| "failure Y (e, UpdateChunk i metadata body) st = thrown (updateChunk Y e i metadata body st)"
| "failure Y (e, Query searchText limit) st = thrown (queryStore Y e searchText limit st)"
| "failure Y (e, MarkRelevant ids) st = thrown (markRelevant Y e ids st)"
| "failure Y (e, MarkObsolete i reason) st = thrown (markObsolete Y e i reason st)"

text \<open>
  The audit appends an operation makes when nothing before them throws: \<^verbatim>\<open>query\<close> calls
  \<^verbatim>\<open>logQuery\<close> and then \<^verbatim>\<open>logRetrieve\<close>, every other operation logs once.
\<close>

fun appendsOf :: "operation \<Rightarrow> nat" where
  "appendsOf (Query searchText limit) = 2"
| "appendsOf other = 1"


section \<open>Example states\<close>

text \<open>A backend that answers every call normally and finds no neighbour.\<close>

definition okBackend :: backend where
  "okBackend = \<lparr> getEmbedding = (\<lambda>t. Some []), addPoint = (\<lambda>v n. True),
                 markDelete = (\<lambda>n. True), searchKnn = (\<lambda>v k. Some []) \<rparr>"

definition blankIndex :: semantic_index where
  "blankIndex = \<lparr>maxElements = 10000, idToIndex = Map.empty, indexToId = Map.empty,
                  nextIndex = 0, deletedIndices = [], hasIndex = False\<rparr>"

text \<open>
  The index after \<^verbatim>\<open>reset\<close>, three documents added, and the third and the first removed,
  in this order.
\<close>

definition exampleIndex :: semantic_index where
  "exampleIndex =
     snd (removeDocument okBackend ''a''
       (snd (removeDocument okBackend ''c''
         (snd (addDocument okBackend ''c'' []
           (snd (addDocument okBackend ''b'' []
             (snd (addDocument okBackend ''a'' [] (reset blankIndex))))))))))"

text \<open>The example index with a further document, which takes the slot freed first.\<close>

definition exampleIndex2 :: semantic_index where
  "exampleIndex2 = snd (addDocument okBackend ''d'' [] exampleIndex)"

text \<open>
  A backend that rejects a number of neighbours that is not positive, as the HNSW package
  does, and otherwise answers with the nearest of three slots.
\<close>

definition exampleBackend :: backend where
  "exampleBackend = \<lparr> getEmbedding = (\<lambda>t. Some [1]), addPoint = (\<lambda>v n. True),
     markDelete = (\<lambda>n. True),
     searchKnn = (\<lambda>v k. if k \<le> 0 then None
                         else Some (take (nat k) [(0, 1 / 10), (2, 1 / 5), (1, 1 / 2)])) \<rparr>"

text \<open>The chunk of scenario S1 as \<^verbatim>\<open>storeChunk\<close> builds it, and two variants of it.\<close>

definition exampleChunk :: chunk where
  "exampleChunk = \<lparr> id' = ''abc123'', content = ''hello world'', summary = ''greet'',
     type' = Fact, epistemic = Established, status = Active, surface_tags = [''hello''],
     related = [], created = ''2025-01-15T10:00:00.000Z'',
     updated = ''2025-01-15T10:00:00.000Z'', accessed = ''2025-01-15T10:00:00.000Z'',
     retrieved_count = 0, relevant_count = 0, last_relevant_date = None,
     expires = None, context_notes = None \<rparr>"




text \<open>
  One call's world in the examples: the clock reads 15 January 2025, 10 o'clock, the random
  bytes spell \<^verbatim>\<open>abc123\<close>, no append fails, the backend answers normally and finds the
  document in slot 0. \<open>laterEnv\<close> is the same world a day later.
\<close>

definition exampleEnv :: env where
  "exampleEnv = \<lparr> now = ''2025-01-15T10:00:00.000Z'', draws = (\<lambda>k. (0xab, 0xc1, 0x23)),
     appendTime = (\<lambda>k. ''2025-01-15T10:00:00.050Z''), appendFails = (\<lambda>k. False),
     lib = okBackend\<lparr>searchKnn := (\<lambda>v k. if k \<le> 0 then None else Some [(0, 1 / 10)])\<rparr>,
     listing = [] \<rparr>"

definition laterEnv :: env where
  "laterEnv = exampleEnv\<lparr>now := ''2025-01-16T12:00:00.000Z'',
                          appendTime := (\<lambda>k. ''2025-01-16T12:00:00.050Z'')\<rparr>"

text \<open>The metadata of scenario S1, and the store after the chunk was stored.\<close>

definition exampleMetadata :: pchunk where
  "exampleMetadata = noMetadata\<lparr>p_summary := Some ''greet'', p_type := Some Fact,
     p_epistemic := Some Established, p_surface_tags := Some [''hello'']\<rparr>"

definition exampleStore :: memory_store where
  "exampleStore = snd (storeChunk plainYaml exampleEnv ''hello world'' exampleMetadata emptyStore)"

text \<open>
  A chunk directory into which a file was put whose name starts with six characters that
  are not hexadecimal digits, before the watcher reports it.
\<close>

definition strayStore :: memory_store where
  "strayStore = emptyStore\<lparr>storage :=
     \<lparr>files = [''zzzzzz-note.md'' \<mapsto> serializeChunk plainYaml (exampleChunk\<lparr>id' := ''zzzzzz''\<rparr>)],
      idToFilename = Map.empty\<rparr>\<rparr>"

section \<open>Verified properties\<close>

subsection \<open>Identifiers\<close>

lemma hexDigit_isHex: "isHexChar (hexDigit n)"
proof -
  have "n mod 16 < length ''0123456789abcdef''" by simp
  then have "''0123456789abcdef'' ! (n mod 16) \<in> set ''0123456789abcdef''"
    by (rule nth_mem)
  then show ?thesis unfolding isHexChar_def hexDigit_def .
qed

lemma generateId_isHexId: "isHexId (generateId r)"
  by (cases r) (simp add: generateId_def toHex_def hexByte_def isHexId_def hexDigit_isHex)

lemma generateLoop_result:
  "attempts \<le> 100 \<Longrightarrow> i = gen attempts \<Longrightarrow> generateLoop ex gen i attempts = (r, n) \<Longrightarrow>
     attempts \<le> n \<and> n \<le> 100 \<and> r = gen n \<and> (\<forall>j. attempts \<le> j \<and> j < n \<longrightarrow> ex (gen j))
     \<and> (n < 100 \<longrightarrow> \<not> ex (gen n))"
proof (induction ex gen i attempts rule: generateLoop.induct)
  case (1 ex gen i attempts)
  show ?case
  proof (cases "ex i \<and> attempts < 100")
    case True
    have "generateLoop ex gen i attempts
        = generateLoop ex gen (gen (attempts + 1)) (attempts + 1)"
      using True by (subst generateLoop.simps) simp
    then have rec: "generateLoop ex gen (gen (attempts + 1)) (attempts + 1) = (r, n)"
      using "1.prems"(3) by simp
    have ih: "attempts + 1 \<le> n \<and> n \<le> 100 \<and> r = gen n
        \<and> (\<forall>j. attempts + 1 \<le> j \<and> j < n \<longrightarrow> ex (gen j)) \<and> (n < 100 \<longrightarrow> \<not> ex (gen n))"
      using "1.IH" [OF True _ refl rec] True by simp
    have "\<forall>j. attempts \<le> j \<and> j < n \<longrightarrow> ex (gen j)"
    proof (intro allI impI)
      fix j assume j: "attempts \<le> j \<and> j < n"
      show "ex (gen j)"
      proof (cases "j = attempts")
        case True
        then show ?thesis using \<open>ex i \<and> attempts < 100\<close> "1.prems"(2) by simp
      next
        case False
        then show ?thesis using j ih by simp
      qed
    qed
    then show ?thesis using ih by simp
  next
    case False
    have "generateLoop ex gen i attempts = (i, attempts)"
      using False by (subst generateLoop.simps) auto
    then have "r = i" "n = attempts"
      using "1.prems"(3) by simp_all
    then show ?thesis using False "1.prems" by auto
  qed
qed

text \<open>
  Claim C9. \<^verbatim>\<open>generateUniqueId\<close> returns the first of its first 100 draws that is
  not yet an id of the store, a string of six lowercase hexadecimal digits, whenever there
  is one; it fails, and then with \<open>IdExhausted\<close>, exactly when the first 100 draws all
  collide with existing ids.
\<close>

theorem generateUniqueId_spec:
  "((\<exists>k<100. \<not> exists st (generateId (rnd k))) \<longrightarrow>
      (\<exists>k<100. generateUniqueId st rnd = Inr (generateId (rnd k))
         \<and> \<not> exists st (generateId (rnd k))
         \<and> (\<forall>j<k. exists st (generateId (rnd j)))
         \<and> isHexId (generateId (rnd k))))
   \<and> (generateUniqueId st rnd = Inl IdExhausted
        \<longleftrightarrow> (\<forall>k<100. exists st (generateId (rnd k))))
   \<and> (\<forall>err. generateUniqueId st rnd = Inl err \<longrightarrow> err = IdExhausted)"
proof -
  obtain r n where loop:
    "generateLoop (exists st) (\<lambda>k. generateId (rnd k)) (generateId (rnd 0)) 0 = (r, n)"
    by (cases "generateLoop (exists st) (\<lambda>k. generateId (rnd k)) (generateId (rnd 0)) 0")
  have res: "n \<le> 100 \<and> r = generateId (rnd n)
      \<and> (\<forall>j. j < n \<longrightarrow> exists st (generateId (rnd j)))
      \<and> (n < 100 \<longrightarrow> \<not> exists st (generateId (rnd n)))"
    using generateLoop_result [OF _ _ loop] by simp
  have val: "generateUniqueId st rnd = (if n \<ge> 100 then Inl IdExhausted else Inr r)"
    by (simp add: generateUniqueId_def loop)
  show ?thesis
  proof (cases "n < 100")
    case True
    then have "generateUniqueId st rnd = Inr (generateId (rnd n))"
      "\<not> exists st (generateId (rnd n))" "\<forall>j<n. exists st (generateId (rnd j))"
      using res val by simp_all
    then show ?thesis using True generateId_isHexId by auto
  next
    case False
    then have "n = 100" using res by simp
    then have "generateUniqueId st rnd = Inl IdExhausted"
      "\<forall>k<100. exists st (generateId (rnd k))"
      using res val by simp_all
    then show ?thesis by auto
  qed
qed

theorem generateUniqueId_spec_witness:
  "generateUniqueId \<lparr>files = Map.empty, idToFilename = Map.empty\<rparr> (\<lambda>k. (1, 2, 3))
     = Inr ''010203''
   \<and> generateUniqueId \<lparr>files = Map.empty, idToFilename = [''010203'' \<mapsto> ''010203-a.md'']\<rparr>
        (\<lambda>k. (1, 2, 3)) = Inl IdExhausted"
proof -
  have g: "generateId (1, 2, 3) = ''010203''"
    by (simp add: generateId_def toHex_def hexByte_def hexDigit_def)
  have "\<exists>k<100::nat. \<not> exists \<lparr>files = Map.empty, idToFilename = Map.empty\<rparr> ''010203''"
    by (rule exI [of _ 0]) (simp add: exists_def)
  then have a: "generateUniqueId \<lparr>files = Map.empty, idToFilename = Map.empty\<rparr>
      (\<lambda>k. (1, 2, 3)) = Inr ''010203''"
    using generateUniqueId_spec
      [of "\<lparr>files = Map.empty, idToFilename = Map.empty\<rparr>" "\<lambda>k. (1, 2, 3)"]
    by (auto simp: g)
  have b: "generateUniqueId
      \<lparr>files = Map.empty, idToFilename = [''010203'' \<mapsto> ''010203-a.md'']\<rparr>
      (\<lambda>k. (1, 2, 3)) = Inl IdExhausted"
    using generateUniqueId_spec
      [of "\<lparr>files = Map.empty, idToFilename = [''010203'' \<mapsto> ''010203-a.md'']\<rparr>"
          "\<lambda>k. (1, 2, 3)"]
    by (simp add: g exists_def)
  show ?thesis using a b by simp
qed

subsection \<open>The plain header syntax\<close>

lemma decNat_encNat: "decNat (encNat n @ r) = (n, r)"
  by (induction n) (simp_all add: decNat_def encNat_def)

lemma decMany_enc:
  assumes "\<And>x r. dec (enc x @ r) = (x, r)"
  shows "decMany dec (length xs) (concat (map enc xs) @ r) = (xs, r)"
  by (induction xs arbitrary: r) (simp_all add: assms)

lemma decList_encList:
  assumes "\<And>x r. dec (enc x @ r) = (x, r)"
  shows "decList dec (encList enc xs @ r) = (xs, r)"
  by (simp add: decList_def encList_def decNat_encNat decMany_enc [OF assms])

lemma decChar_encChar: "decChar (encChar c @ r) = (c, r)"
  by (simp add: decChar_def encChar_def decNat_encNat)

lemma decString_encString: "decString (encString s @ r) = (s, r)"
  unfolding decString_def encString_def by (rule decList_encList) (rule decChar_encChar)

lemma decOption_encOption:
  assumes "\<And>x r. dec (enc x @ r) = (x, r)"
  shows "decOption dec (encOption enc v @ r) = (v, r)"
  by (cases v) (simp_all add: decOption_def encOption_def decNat_encNat assms)

lemma decInt_encInt: "decInt (encInt i @ r) = (i, r)"
  by (simp add: decInt_def encInt_def decNat_encNat)

lemma decType_encType: "decType (encType t @ r) = (t, r)"
  by (cases t) (simp_all add: decType_def encType_def decNat_encNat)

lemma decEpistemic_encEpistemic: "decEpistemic (encEpistemic t @ r) = (t, r)"
  by (cases t) (simp_all add: decEpistemic_def encEpistemic_def decNat_encNat)

lemma decStatus_encStatus: "decStatus (encStatus t @ r) = (t, r)"
  by (cases t) (simp_all add: decStatus_def encStatus_def decNat_encNat)

lemma decRelation_encRelation: "decRelation (encRelation x @ r) = (x, r)"
  by (simp add: decRelation_def encRelation_def decString_encString)

lemma decStrings: "decList decString (encList encString xs @ r) = (xs, r)"
  by (rule decList_encList) (rule decString_encString)

lemma decRelations: "decList decRelation (encList encRelation xs @ r) = (xs, r)"
  by (rule decList_encList) (rule decRelation_encRelation)

lemma decMeta_encMeta: "decMeta (encMeta m) = m"
proof -
  have last: "decOption decString (encOption encString v) = (v, [])" for v
    using decOption_encOption [of decString encString v "[]"] decString_encString by simp
  show ?thesis
    by (simp add: decMeta_def encMeta_def decString_encString decType_encType
        decEpistemic_encEpistemic decStatus_encStatus decInt_encInt last
        decOption_encOption [where dec = decString and enc = encString]
        decOption_encOption [where dec = decInt and enc = encInt]
        decOption_encOption [where dec = "decList decString" and enc = "encList encString"]
        decOption_encOption [where dec = "decList decRelation" and enc = "encList encRelation"]
        decStrings decRelations)
qed

lemma plain_encNat: "set (encNat n) \<subseteq> {CHR ''x'', CHR '';''}"
  by (auto simp: encNat_def)

lemma plain_encList:
  assumes "\<And>x. set (enc x) \<subseteq> {CHR ''x'', CHR '';''}"
  shows "set (encList enc xs) \<subseteq> {CHR ''x'', CHR '';''}"
  using assms plain_encNat [of "length xs"] by (fastforce simp: encList_def)

lemma plain_encString: "set (encString s) \<subseteq> {CHR ''x'', CHR '';''}"
  unfolding encString_def by (rule plain_encList) (simp add: encChar_def plain_encNat)

lemma plain_encOption:
  assumes "\<And>x. set (enc x) \<subseteq> {CHR ''x'', CHR '';''}"
  shows "set (encOption enc v) \<subseteq> {CHR ''x'', CHR '';''}"
  using assms plain_encNat by (cases v) (auto simp: encOption_def)

lemma plain_encInt: "set (encInt i) \<subseteq> {CHR ''x'', CHR '';''}"
  using plain_encNat by (auto simp: encInt_def)

lemma plain_encRelation: "set (encRelation r) \<subseteq> {CHR ''x'', CHR '';''}"
  using plain_encString by (auto simp: encRelation_def)

lemma plain_encMeta: "set (encMeta m) \<subseteq> {CHR ''x'', CHR '';''}"
  unfolding encMeta_def set_append
  by (intro Un_least plain_encString plain_encOption plain_encList plain_encInt
      plain_encRelation)
    (simp_all add: encType_def encEpistemic_def encStatus_def plain_encNat)

lemma split_nl_single: "nl \<notin> set s \<Longrightarrow> split_nl s = [s]"
  by (induction s) auto

lemma plainYaml_ok: "yamlOk plainYaml"
proof -
  have "yamlRoundTrip plainYaml m" for m
  proof -
    have a: "nl \<notin> set (encMeta m)" "CHR ''-'' \<notin> set (encMeta m)"
      using plain_encMeta [of m] by auto
    then have "encMeta m \<noteq> ''---''" by auto
    then show ?thesis
      using a by (simp add: yamlRoundTrip_def plainYaml_def split_nl_single decMeta_encMeta
          FRONTMATTER_DELIMITER_def)
  qed
  then show ?thesis by (simp add: yamlOk_def)
qed

subsection \<open>The string-id facade of the semantic index\<close>

lemma facadeInv_reset: "facadeInv (reset s)"
  by (simp add: facadeInv_def reset_def)

lemma removeDocument_cases:
  "removeDocument B i s =
     (if hasIndex s \<and> (\<exists>n. idToIndex s i = Some n \<and> markDelete B n)
      then (True, s\<lparr>idToIndex := (idToIndex s)(i := None),
                     indexToId := (indexToId s)(the (idToIndex s i) := None),
                     deletedIndices := setAdd (the (idToIndex s i)) (deletedIndices s)\<rparr>)
      else (False, s))"
  by (auto simp: removeDocument_def split: option.splits)

lemma facadeInv_unmap:
  assumes "facadeInv s" and "idToIndex s i = Some n"
  shows "facadeInv (s\<lparr>idToIndex := (idToIndex s)(i := None),
                       indexToId := (indexToId s)(n := None),
                       deletedIndices := setAdd n (deletedIndices s)\<rparr>)"
proof -
  have inv: "\<And>j m. idToIndex s j = Some m \<longleftrightarrow> indexToId s m = Some j"
    and fin: "finite (dom (idToIndex s))"
    and del: "\<And>m. m \<in> set (deletedIndices s) \<Longrightarrow> indexToId s m = None"
    and bnd: "\<And>m j. indexToId s m = Some j \<Longrightarrow> m < nextIndex s"
    and bnd': "\<And>m. m \<in> set (deletedIndices s) \<Longrightarrow> m < nextIndex s"
    using assms(1) by (auto simp: facadeInv_def)
  have n: "indexToId s n = Some i" using assms(2) inv by simp
  have set_add: "set (setAdd n (deletedIndices s)) = insert n (set (deletedIndices s))"
    by (auto simp: setAdd_def)
  have 1: "\<forall>j m. ((idToIndex s)(i := None)) j = Some m
              \<longleftrightarrow> ((indexToId s)(n := None)) m = Some j"
  proof (intro allI)
    fix j m
    show "((idToIndex s)(i := None)) j = Some m \<longleftrightarrow> ((indexToId s)(n := None)) m = Some j"
      using inv [of j m] inv [of i n] inv [of j n] inv [of i m] assms(2) n by auto
  qed
  have 2: "finite (dom ((idToIndex s)(i := None)))" using fin by simp
  have 3: "\<forall>m \<in> set (setAdd n (deletedIndices s)). ((indexToId s)(n := None)) m = None"
    using del by (auto simp: set_add)
  have 4: "\<forall>m. ((indexToId s)(n := None)) m \<noteq> None \<or> m \<in> set (setAdd n (deletedIndices s))
            \<longrightarrow> m < nextIndex s"
    using bnd bnd' n by (auto simp: set_add)
  show ?thesis using 1 2 3 4 by (simp add: facadeInv_def)
qed

lemma facadeInv_removeDocument:
  "facadeInv s \<Longrightarrow> facadeInv (snd (removeDocument B i s))"
  by (auto simp: removeDocument_cases facadeInv_unmap)

lemma allocate_facts:
  assumes "facadeInv s" and "allocate s = (n, s2)"
  shows "facadeInv s2" and "indexToId s2 n = None" and "n \<notin> set (deletedIndices s2)"
    and "n < nextIndex s2" and "idToIndex s2 = idToIndex s" and "indexToId s2 = indexToId s"
    and "maxElements s2 = maxElements s" and "hasIndex s2 = hasIndex s"
proof -
  have del: "\<And>m. m \<in> set (deletedIndices s) \<Longrightarrow> indexToId s m = None"
    and bnd: "\<And>m j. indexToId s m = Some j \<Longrightarrow> m < nextIndex s"
    and bnd': "\<And>m. m \<in> set (deletedIndices s) \<Longrightarrow> m < nextIndex s"
    using assms(1) by (auto simp: facadeInv_def)
  show "facadeInv s2" using assms
    by (cases "deletedIndices s") (auto simp: allocate_def facadeInv_def setDelete_def less_Suc_eq)
  show "indexToId s2 n = None"
  proof (cases "deletedIndices s")
    case Nil
    then show ?thesis using assms(2) bnd [of "nextIndex s"] by (cases "indexToId s (nextIndex s)") (auto simp: allocate_def)
  next
    case (Cons x xs)
    then show ?thesis using assms(2) del [of x] by (auto simp: allocate_def)
  qed
  show "n \<notin> set (deletedIndices s2)"
    using assms(2) by (cases "deletedIndices s") (auto simp: allocate_def setDelete_def)
  show "n < nextIndex s2"
  proof (cases "deletedIndices s")
    case Nil
    then show ?thesis using assms(2) by (auto simp: allocate_def)
  next
    case (Cons x xs)
    then show ?thesis using assms(2) bnd' [of x] by (auto simp: allocate_def)
  qed
  show "idToIndex s2 = idToIndex s" "indexToId s2 = indexToId s"
    "maxElements s2 = maxElements s" "hasIndex s2 = hasIndex s"
    using assms(2) by (cases "deletedIndices s"; auto simp: allocate_def)+
qed

lemma facadeInv_map:
  assumes "facadeInv s" and "idToIndex s i = None" and "indexToId s n = None"
    and "n \<notin> set (deletedIndices s)" and "n < nextIndex s"
  shows "facadeInv (s\<lparr>idToIndex := (idToIndex s)(i \<mapsto> n), indexToId := (indexToId s)(n \<mapsto> i)\<rparr>)"
proof -
  have inv: "\<And>j m. idToIndex s j = Some m \<longleftrightarrow> indexToId s m = Some j"
    and fin: "finite (dom (idToIndex s))"
    and del: "\<And>m. m \<in> set (deletedIndices s) \<Longrightarrow> indexToId s m = None"
    and bnd: "\<And>m j. indexToId s m = Some j \<Longrightarrow> m < nextIndex s"
    and bnd': "\<And>m. m \<in> set (deletedIndices s) \<Longrightarrow> m < nextIndex s"
    using assms(1) by (auto simp: facadeInv_def)
  have 1: "\<forall>j m. ((idToIndex s)(i \<mapsto> n)) j = Some m \<longleftrightarrow> ((indexToId s)(n \<mapsto> i)) m = Some j"
  proof (intro allI)
    fix j m
    show "((idToIndex s)(i \<mapsto> n)) j = Some m \<longleftrightarrow> ((indexToId s)(n \<mapsto> i)) m = Some j"
      using inv [of j m] inv [of j n] inv [of i m] assms(2,3) by auto
  qed
  have 3: "\<forall>m \<in> set (deletedIndices s). ((indexToId s)(n \<mapsto> i)) m = None"
    using del assms(4) by auto
  have 4: "\<forall>m. ((indexToId s)(n \<mapsto> i)) m \<noteq> None \<or> m \<in> set (deletedIndices s)
            \<longrightarrow> m < nextIndex s"
    using bnd bnd' assms(5) by auto
  show ?thesis using 1 3 4 fin by (simp add: facadeInv_def)
qed

lemma facadeInv_addDocument:
  assumes "facadeInv s" and "\<And>n. idToIndex s i = Some n \<Longrightarrow> markDelete B n"
  shows "facadeInv (snd (addDocument B i doc s))"
proof (cases "hasIndex s")
  case False
  then show ?thesis using assms(1) by (simp add: addDocument_def)
next
  case True
  define s1 where "s1 = (if idToIndex s i \<noteq> None then snd (removeDocument B i s) else s)"
  obtain n s2 where al: "allocate s1 = (n, s2)" by (cases "allocate s1")
  have inv1: "facadeInv s1" using assms(1) by (simp add: s1_def facadeInv_removeDocument)
  have un1: "idToIndex s1 i = None"
    using assms(2) True by (auto simp: s1_def removeDocument_cases)
  note f = allocate_facts [OF inv1 al]
  have un2: "idToIndex s2 i = None" using un1 f(5) by simp
  have "facadeInv (s2\<lparr>idToIndex := (idToIndex s2)(i \<mapsto> n), indexToId := (indexToId s2)(n \<mapsto> i)\<rparr>)"
    by (rule facadeInv_map [OF f(1) un2 f(2) f(3) f(4)])
  then show ?thesis
    using True f(1) al unfolding addDocument_def s1_def [symmetric]
    by (simp add: Let_def split: option.splits)
qed

lemma facadeInv_updateDocument:
  assumes "facadeInv s" and "\<And>n. idToIndex s i = Some n \<Longrightarrow> markDelete B n"
  shows "facadeInv (snd (updateDocument B i doc s))"
proof -
  have "idToIndex (snd (removeDocument B i s)) i = Some n \<Longrightarrow> markDelete B n" for n
    using assms(2) by (auto simp: removeDocument_cases split: if_splits)
  then show ?thesis
    unfolding updateDocument_def
    by (intro facadeInv_addDocument facadeInv_removeDocument assms(1))
qed

lemma withinCapacity_reset: "withinCapacity (reset s)"
  by (simp add: withinCapacity_def reset_def)

lemma withinCapacity_removeDocument:
  assumes "withinCapacity s" and "facadeInv s"
  shows "withinCapacity (snd (removeDocument B i s))"
proof (cases "hasIndex s \<and> (\<exists>n. idToIndex s i = Some n \<and> markDelete B n)")
  case False
  then have "removeDocument B i s = (False, s)" by (auto simp: removeDocument_cases)
  then show ?thesis using assms(1) by simp
next
  case True
  then obtain n where n: "idToIndex s i = Some n" by auto
  then have "indexToId s n = Some i" using assms(2) by (simp add: facadeInv_def)
  then have "n < maxElements s" using assms(1) by (simp add: withinCapacity_def)
  then show ?thesis
    using True n assms(1)
    by (auto simp: removeDocument_cases withinCapacity_def setAdd_def split: if_splits)
qed

lemma withinCapacity_allocate:
  assumes "withinCapacity s" and "allocate s = (n, s2)"
  shows "withinCapacity s2"
  using assms
  by (cases "deletedIndices s") (auto simp: allocate_def withinCapacity_def setDelete_def)

lemma withinCapacity_addDocument:
  assumes "withinCapacity s" and "facadeInv s"
  shows "withinCapacity (snd (addDocument B i doc s))"
proof (cases "hasIndex s")
  case False
  then show ?thesis using assms(1) by (simp add: addDocument_def)
next
  case True
  define s1 where "s1 = (if idToIndex s i \<noteq> None then snd (removeDocument B i s) else s)"
  obtain n s2 where al: "allocate s1 = (n, s2)" by (cases "allocate s1")
  have c1: "withinCapacity s1"
    using assms by (simp add: s1_def withinCapacity_removeDocument)
  have c2: "withinCapacity s2" by (rule withinCapacity_allocate [OF c1 al])
  have "n < maxElements s2 \<Longrightarrow>
    withinCapacity (s2\<lparr>idToIndex := (idToIndex s2)(i \<mapsto> n), indexToId := (indexToId s2)(n \<mapsto> i)\<rparr>)"
    using c2 by (auto simp: withinCapacity_def)
  then show ?thesis
    using True c2 al unfolding addDocument_def s1_def [symmetric]
    by (simp add: Let_def split: option.splits)
qed

lemma exampleIndex_value:
  "exampleIndex = \<lparr>maxElements = 10000, idToIndex = [''b'' \<mapsto> 1], indexToId = [1 \<mapsto> ''b''],
                    nextIndex = 3, deletedIndices = [2, 0], hasIndex = True\<rparr>"
  by (simp add: exampleIndex_def blankIndex_def reset_def addDocument_def removeDocument_def
      allocate_def okBackend_def setAdd_def setDelete_def fun_upd_twist)


lemma exampleIndex_inv: "facadeInv exampleIndex"
  by (simp add: exampleIndex_def facadeInv_removeDocument facadeInv_addDocument facadeInv_reset
      okBackend_def)

lemma exampleIndex_capacity: "withinCapacity exampleIndex"
  by (simp add: exampleIndex_def withinCapacity_removeDocument withinCapacity_addDocument
      withinCapacity_reset facadeInv_removeDocument facadeInv_addDocument facadeInv_reset
      okBackend_def)

text \<open>
  Claim C10. After \<^verbatim>\<open>reset\<close> the facade invariant holds, and \<^verbatim>\<open>removeDocument\<close>,
  \<^verbatim>\<open>addDocument\<close> and \<^verbatim>\<open>updateDocument\<close> keep it, whether they return or throw: the two
  maps stay finite and inverse to each other, no deleted slot is mapped, every mapped or
  deleted slot is below \<^verbatim>\<open>nextIndex\<close>. For \<^verbatim>\<open>addDocument\<close> and \<^verbatim>\<open>updateDocument\<close> of a
  document that is present, the backend's \<^verbatim>\<open>markDelete\<close> is taken to return normally on
  the slot of that document.
\<close>

theorem facade_invariant:
  "facadeInv (reset s0)
   \<and> (facadeInv s \<longrightarrow> facadeInv (snd (removeDocument B i s)))
   \<and> (facadeInv s \<and> (\<forall>n. idToIndex s i = Some n \<longrightarrow> markDelete B n) \<longrightarrow>
        facadeInv (snd (addDocument B i doc s))
        \<and> facadeInv (snd (updateDocument B i doc s)))"
  using facadeInv_reset facadeInv_removeDocument facadeInv_addDocument facadeInv_updateDocument
  by blast

theorem facade_invariant_witness:
  "facadeInv (reset blankIndex)
   \<and> facadeInv exampleIndex
   \<and> idToIndex exampleIndex ''b'' = Some 1 \<and> markDelete okBackend 1
   \<and> facadeInv (snd (removeDocument okBackend ''b'' exampleIndex))
   \<and> facadeInv (snd (addDocument okBackend ''b'' ''text'' exampleIndex))
   \<and> facadeInv (snd (updateDocument okBackend ''b'' ''text'' exampleIndex))"
proof -
  have m: "\<forall>n. idToIndex exampleIndex ''b'' = Some n \<longrightarrow> markDelete okBackend n"
    by (simp add: okBackend_def)
  have v: "idToIndex exampleIndex ''b'' = Some 1" "markDelete okBackend 1"
    by (simp_all add: exampleIndex_value okBackend_def)
  show ?thesis
    using facade_invariant [of blankIndex exampleIndex okBackend "''b''" "''text''"]
      exampleIndex_inv m v
    by simp
qed

lemma setAdd_fresh: "n \<notin> set xs \<Longrightarrow> setAdd n xs = xs @ [n]"
  by (simp add: setAdd_def)

text \<open>
  Claim C5, as the code has it. \<^verbatim>\<open>addDocument(id, text)\<close> on an initialised index whose
  slots are within the capacity first removes a present \<^verbatim>\<open>id\<close>, then takes the first free
  slot in the iteration order of the set of deleted slots (the slot it has just freed
  comes last), or \<^verbatim>\<open>nextIndex\<close> when there is none, which it then increments. It fails with
  \<open>CapacityExceeded\<close> exactly when that slot is not below \<^verbatim>\<open>maxElements\<close>, and then both
  maps are as before the call. When it returns, \<^verbatim>\<open>id\<close> is mapped to the slot and the slot
  to \<^verbatim>\<open>id\<close>.
\<close>

theorem addDocument_spec:
  assumes "hasIndex s" and "facadeInv s" and "withinCapacity s"
    and "\<forall>n. idToIndex s i = Some n \<longrightarrow> markDelete B n"
  shows "(fst (addDocument B i doc s) = Inl CapacityExceeded
            \<longleftrightarrow> firstFreeSlot s i \<ge> maxElements s)
     \<and> (fst (addDocument B i doc s) = Inl CapacityExceeded \<longrightarrow>
           idToIndex (snd (addDocument B i doc s)) = idToIndex s
           \<and> indexToId (snd (addDocument B i doc s)) = indexToId s)
     \<and> (fst (addDocument B i doc s) = Inr () \<longrightarrow>
           idToIndex (snd (addDocument B i doc s)) = (idToIndex s)(i \<mapsto> firstFreeSlot s i)
           \<and> indexToId (snd (addDocument B i doc s))
               = (case idToIndex s i of
                    None \<Rightarrow> indexToId s
                  | Some n \<Rightarrow> (indexToId s)(n := None))(firstFreeSlot s i \<mapsto> i))
     \<and> deletedIndices (snd (addDocument B i doc s))
           = removeAll (firstFreeSlot s i) (freeSlots s i)
     \<and> nextIndex (snd (addDocument B i doc s))
           = (if freeSlots s i = [] then nextIndex s + 1 else nextIndex s)"
proof (cases "idToIndex s i")
  case None
  show ?thesis
  proof (cases "deletedIndices s")
    case Nil
    then show ?thesis
      using None assms(1)
      by (auto simp: addDocument_def allocate_def freeSlots_def firstFreeSlot_def Let_def
          split: option.splits)
  next
    case (Cons x xs)
    then have "x < maxElements s" using assms(3) by (simp add: withinCapacity_def)
    then show ?thesis
      using None Cons assms(1)
      by (auto simp: addDocument_def allocate_def freeSlots_def firstFreeSlot_def Let_def
          setDelete_def split: option.splits)
  qed
next
  case (Some n)
  have md: "markDelete B n" using assms(4) Some by simp
  have n: "indexToId s n = Some i" using assms(2) Some by (simp add: facadeInv_def)
  then have nfresh: "n \<notin> set (deletedIndices s)" using assms(2) by (auto simp: facadeInv_def)
  have ncap: "n < maxElements s" using n assms(3) by (simp add: withinCapacity_def)
  have rem: "snd (removeDocument B i s)
      = s\<lparr>idToIndex := (idToIndex s)(i := None), indexToId := (indexToId s)(n := None),
           deletedIndices := deletedIndices s @ [n]\<rparr>"
    using Some md assms(1) nfresh by (simp add: removeDocument_def setAdd_fresh)
  show ?thesis
  proof (cases "deletedIndices s")
    case Nil
    then show ?thesis
      using Some assms(1) ncap rem
      by (auto simp: addDocument_def allocate_def freeSlots_def firstFreeSlot_def Let_def
          setDelete_def split: option.splits)
  next
    case (Cons x xs)
    then have "x < maxElements s" using assms(3) by (simp add: withinCapacity_def)
    then show ?thesis
      using Some Cons assms(1) rem
      by (auto simp: addDocument_def allocate_def freeSlots_def firstFreeSlot_def Let_def
          setDelete_def split: option.splits)
  qed
qed

theorem addDocument_spec_witness:
  "hasIndex exampleIndex \<and> facadeInv exampleIndex \<and> withinCapacity exampleIndex
   \<and> freeSlots exampleIndex ''d'' = [2, 0]
   \<and> fst (addDocument okBackend ''d'' ''text'' exampleIndex) = Inr ()
   \<and> idToIndex (snd (addDocument okBackend ''d'' ''text'' exampleIndex)) ''d'' = Some 2
   \<and> deletedIndices (snd (addDocument okBackend ''d'' ''text'' exampleIndex)) = [0]
   \<and> nextIndex (snd (addDocument okBackend ''d'' ''text'' exampleIndex)) = 3"
proof -
  have h: "hasIndex exampleIndex" "idToIndex exampleIndex ''d'' = None"
    "freeSlots exampleIndex ''d'' = [2, 0]" "firstFreeSlot exampleIndex ''d'' = 2"
    "nextIndex exampleIndex = 3"
    by (simp_all add: exampleIndex_value freeSlots_def firstFreeSlot_def)
  have r: "fst (addDocument okBackend ''d'' ''text'' exampleIndex) = Inr ()"
    by (simp add: exampleIndex_value addDocument_def allocate_def okBackend_def setDelete_def)
  show ?thesis
    using addDocument_spec [of exampleIndex "''d''" okBackend "''text''"]
      exampleIndex_inv exampleIndex_capacity h r
    by simp
qed

text \<open>
  Claim C5, as stated, fails: with the free slots 2 and 0, deleted in this order,
  \<^verbatim>\<open>addDocument\<close> takes slot 2, which is not the smallest free slot.
\<close>

theorem addDocument_smallest_counterexample:
  "deletedIndices exampleIndex = [2, 0]
   \<and> idToIndex (snd (addDocument okBackend ''d'' ''text'' exampleIndex)) ''d'' = Some 2
   \<and> Min (set (deletedIndices exampleIndex)) = 0
   \<and> \<not> (\<forall>n. idToIndex (snd (addDocument okBackend ''d'' ''text'' exampleIndex)) ''d'' = Some n
           \<longrightarrow> n = Min (set (deletedIndices exampleIndex)))"
  by (simp add: exampleIndex_value addDocument_def allocate_def okBackend_def setDelete_def)

lemma mapSlots_eq:
  "mapSlots m res = map (\<lambda>(n, d). (the (m n), d)) (filter (\<lambda>(n, d). truthy (m n)) res)"
  by (induction m res rule: mapSlots.induct) auto

lemma mapSlots_length: "length (mapSlots m res) \<le> length res"
  by (simp add: mapSlots_eq)

lemma mapSlots_snd: "map snd (mapSlots m res) = map snd (filter (\<lambda>(n, d). truthy (m n)) res)"
  by (induction m res rule: mapSlots.induct) auto

lemma mapSlots_sorted: "sorted (map snd res) \<Longrightarrow> sorted (map snd (mapSlots m res))"
  by (simp add: mapSlots_snd sorted_filter)

lemma mapSlots_mem:
  "(i, d) \<in> set (mapSlots m res) \<Longrightarrow> \<exists>n. (n, d) \<in> set res \<and> m n = Some i \<and> i \<noteq> []"
  by (induction m res rule: mapSlots.induct)
    (auto simp: truthy_def split: if_splits option.splits)

lemma mapSlots_distinct:
  assumes "\<And>n n' i. m n = Some i \<Longrightarrow> m n' = Some i \<Longrightarrow> n = n'"
  shows "distinct (map fst res) \<Longrightarrow> distinct (map fst (mapSlots m res))"
proof (induction res)
  case Nil
  then show ?case by simp
next
  case (Cons a rest)
  obtain numIndex distance where a: "a = (numIndex, distance)" by (cases a)
  show ?case
  proof (cases "truthy (m numIndex)")
    case False
    then show ?thesis using Cons a by simp
  next
    case True
    then obtain i where i: "m numIndex = Some i" by (auto simp: truthy_def split: option.splits)
    have "i \<notin> fst ` set (mapSlots m rest)"
    proof
      assume "i \<in> fst ` set (mapSlots m rest)"
      then obtain d where "(i, d) \<in> set (mapSlots m rest)" by force
      then obtain n where n: "(n, d) \<in> set rest" "m n = Some i"
        using mapSlots_mem by blast
      have "n = numIndex" by (rule assms [OF n(2) i])
      then show False using n(1) Cons.prems a by force
    qed
    then show ?thesis using Cons True i a by simp
  qed
qed

text \<open>
  Claim C6, as the code has it. For a backend that answers \<^verbatim>\<open>searchKnn(v, k)\<close> with at
  most \<open>k\<close> neighbours, each slot once and nearest first, and a facade that satisfies its
  invariant, \<^verbatim>\<open>SemanticIndex.query(text, k)\<close> returns at most \<open>min(k, documentCount)\<close>
  results with pairwise distinct ids, in the order of non-decreasing distance. It returns
  the empty sequence when no document is indexed and \<open>k\<close> is not negative. What it
  returns are the neighbours whose slot is mapped to a non-empty id, in the backend's
  order; every other neighbour is dropped.
\<close>

theorem query_spec:
  assumes "facadeInv s" and "knnContract B"
  shows "(hasIndex s \<and> getDocumentCount s = 0 \<and> 0 \<le> k \<longrightarrow> query B doc k s = Inr [])
     \<and> (\<forall>rs. query B doc k s = Inr rs \<longrightarrow>
           int (length rs) \<le> min k (int (getDocumentCount s))
           \<and> distinct (map fst rs) \<and> sorted (map snd rs)
           \<and> (\<forall>x \<in> set rs. indexToId s (the (idToIndex s (fst x))) = Some (fst x)))
     \<and> (\<forall>v res. hasIndex s \<and> min k (int (getDocumentCount s)) \<noteq> 0
           \<and> getEmbedding B doc = Some v
           \<and> searchKnn B v (min k (int (getDocumentCount s))) = Some res \<longrightarrow>
           query B doc k s
             = Inr (map (\<lambda>(n, d). (the (indexToId s n), d))
                      (filter (\<lambda>(n, d). truthy (indexToId s n)) res)))"
proof (intro conjI allI impI)
  assume "hasIndex s \<and> getDocumentCount s = 0 \<and> 0 \<le> k"
  then show "query B doc k s = Inr []"
    by (simp add: query_def Let_def min_def)
next
  fix rs assume q: "query B doc k s = Inr rs"
  have inj: "\<And>n n' i. indexToId s n = Some i \<Longrightarrow> indexToId s n' = Some i \<Longrightarrow> n = n'"
    using assms(1) unfolding facadeInv_def by (metis option.inject)
  define a where "a = min k (int (getDocumentCount s))"
  have "int (length rs) \<le> a \<and> distinct (map fst rs) \<and> sorted (map snd rs)
      \<and> (\<forall>x \<in> set rs. \<exists>n. indexToId s n = Some (fst x))"
  proof (cases "a = 0")
    case True
    then have "rs = []" using q by (simp add: query_def Let_def a_def split: if_splits)
    then show ?thesis using True by simp
  next
    case False
    then obtain v res where v: "getEmbedding B doc = Some v" "searchKnn B v a = Some res"
      and rs: "rs = mapSlots (indexToId s) res"
      using q by (auto simp: query_def Let_def a_def split: if_splits option.splits)
    have c: "int (length res) \<le> a" "distinct (map fst res)" "sorted (map snd res)"
      using assms(2) v(2) by (auto simp: knnContract_def)
    have "length rs \<le> length res" by (simp add: rs mapSlots_length)
    then have "int (length rs) \<le> a" using c(1) by linarith
    moreover have "distinct (map fst rs)"
      unfolding rs by (rule mapSlots_distinct [OF inj c(2)])
    moreover have "sorted (map snd rs)" unfolding rs by (rule mapSlots_sorted [OF c(3)])
    moreover have "\<forall>x \<in> set rs. \<exists>n. indexToId s n = Some (fst x)"
      unfolding rs using mapSlots_mem [of _ _ "indexToId s" res] by force
    ultimately show ?thesis by simp
  qed
  moreover have "indexToId s (the (idToIndex s j)) = Some j" if "indexToId s n = Some j" for n j
  proof -
    have "idToIndex s j = Some n" using that assms(1) by (simp add: facadeInv_def)
    then show ?thesis using that by simp
  qed
  ultimately show "int (length rs) \<le> min k (int (getDocumentCount s))"
    "distinct (map fst rs)" "sorted (map snd rs)"
    "\<forall>x \<in> set rs. indexToId s (the (idToIndex s (fst x))) = Some (fst x)"
    unfolding a_def by blast+
next
  fix v res
  assume "hasIndex s \<and> min k (int (getDocumentCount s)) \<noteq> 0
           \<and> getEmbedding B doc = Some v
           \<and> searchKnn B v (min k (int (getDocumentCount s))) = Some res"
  then show "query B doc k s
             = Inr (map (\<lambda>(n, d). (the (indexToId s n), d))
                      (filter (\<lambda>(n, d). truthy (indexToId s n)) res))"
    by (simp add: query_def Let_def mapSlots_eq)
qed

lemma exampleIndex2_value:
  "exampleIndex2 = \<lparr>maxElements = 10000, idToIndex = [''b'' \<mapsto> 1, ''d'' \<mapsto> 2],
                     indexToId = [1 \<mapsto> ''b'', 2 \<mapsto> ''d''],
                     nextIndex = 3, deletedIndices = [0], hasIndex = True\<rparr>"
  by (simp add: exampleIndex2_def exampleIndex_value addDocument_def allocate_def okBackend_def
      setDelete_def)

lemma exampleIndex2_inv: "facadeInv exampleIndex2"
  by (simp add: exampleIndex2_def facadeInv_addDocument exampleIndex_inv okBackend_def)

lemma exampleBackend_contract: "knnContract exampleBackend"
proof -
  have "int (length (take (nat k) xs)) \<le> k" if "0 < k" for k and xs :: "(nat \<times> real) list"
    using that by simp
  moreover have "distinct (map fst (take n [(0::nat, 1 / 10 :: real), (2, 1 / 5), (1, 1 / 2)]))" for n
    by (simp add: take_map [symmetric] distinct_take)
  moreover have "sorted (map snd (take n [(0::nat, 1 / 10 :: real), (2, 1 / 5), (1, 1 / 2)]))" for n
    by (simp add: take_map [symmetric] sorted_wrt_take)
  ultimately show ?thesis
    by (auto simp: knnContract_def exampleBackend_def split: if_splits)
qed

theorem query_spec_witness:
  "facadeInv exampleIndex2 \<and> knnContract exampleBackend
   \<and> getDocumentCount exampleIndex2 = 2
   \<and> query exampleBackend ''q'' 5 exampleIndex2 = Inr [(''d'', 1 / 5)]
   \<and> query exampleBackend ''q'' 5 (reset blankIndex) = Inr []"
proof -
  have c: "getDocumentCount exampleIndex2 = 2" "getDocumentCount (reset blankIndex) = 0"
    "hasIndex exampleIndex2" "hasIndex (reset blankIndex)"
    by (simp_all add: getDocumentCount_def exampleIndex2_value reset_def blankIndex_def)
  have e: "getEmbedding exampleBackend ''q'' = Some [1]"
    "searchKnn exampleBackend [1] 2 = Some [(0, 1 / 10), (2, 1 / 5)]"
    by (simp_all add: exampleBackend_def)
  have a: "query exampleBackend ''q'' 5 exampleIndex2
      = Inr (map (\<lambda>(n, d). (the (indexToId exampleIndex2 n), d))
               (filter (\<lambda>(n, d). truthy (indexToId exampleIndex2 n)) [(0, 1 / 10), (2, 1 / 5)]))"
    using query_spec [where doc = "''q''" and k = 5, OF exampleIndex2_inv exampleBackend_contract] c e by simp
  have b: "query exampleBackend ''q'' 5 (reset blankIndex) = Inr []"
    using query_spec [where doc = "''q''" and k = 5, OF facadeInv_reset exampleBackend_contract, of blankIndex] c
    by simp
  show ?thesis
    using a b c exampleIndex2_inv exampleBackend_contract
    by (simp add: exampleIndex2_value truthy_def)
qed

text \<open>
  Claim C6, as stated, fails for a negative \<open>k\<close>: on the empty index \<^verbatim>\<open>Math.min(k, 0)\<close> is
  \<open>k\<close>, not zero, and the backend is asked for \<open>k\<close> neighbours. A backend that rejects
  the number makes the query throw; a backend that answers makes the query return more
  than \<open>min(k, documentCount)\<close> results.
\<close>

theorem query_negative_counterexample:
  "hasIndex (reset blankIndex) \<and> getDocumentCount (reset blankIndex) = 0
   \<and> query exampleBackend ''q'' (- 1) (reset blankIndex) = Inl BackendError
   \<and> query okBackend ''q'' (- 1) (reset blankIndex) = Inr []
   \<and> \<not> int (length ([] :: (string \<times> real) list))
         \<le> min (- 1) (int (getDocumentCount (reset blankIndex)))"
  by (simp add: query_def getDocumentCount_def reset_def blankIndex_def exampleBackend_def
      okBackend_def)

subsection \<open>The chunk codec\<close>

lemma split_nl_nonempty: "split_nl s \<noteq> []"
  by (induction s) (auto split: list.splits)

lemma split_nl_append: "split_nl (a @ nl # b) = split_nl a @ split_nl b"
proof (induction a)
  case Nil
  show ?case by simp
next
  case (Cons c a)
  obtain l ls where l: "split_nl a = l # ls"
    using split_nl_nonempty [of a] by (cases "split_nl a") auto
  show ?case using Cons l by simp
qed

lemma split_nl_no_nl: "nl \<notin> set s \<Longrightarrow> split_nl s = [s]"
  by (induction s) auto

lemma joinWith_split_nl: "joinWith [nl] (split_nl s) = s"
proof (induction s)
  case Nil
  show ?case by simp
next
  case (Cons c s)
  obtain l ls where l: "split_nl s = l # ls"
    using split_nl_nonempty [of s] by (cases "split_nl s") auto
  show ?case using Cons l by (cases ls) auto
qed

lemma joinWith_Cons: "ys \<noteq> [] \<Longrightarrow> joinWith sep (x # ys) = x @ sep @ joinWith sep ys"
  by (cases ys) auto

lemma indexOf_here: "d \<notin> set xs \<Longrightarrow> indexOf (xs @ d # ys) d 0 = Some (length xs)"
  by (induction xs) auto

lemma trim_nl: "trim (nl # s) = trim s"
  by (simp add: trim_def isWhitespace_def)

lemma trim_idem: "trim (trim s) = trim s"
proof -
  define u where "u = dropWhile isWhitespace s"
  define t where "t = rev (dropWhile isWhitespace (rev u))"
  have t: "trim s = t" by (simp add: trim_def t_def u_def)
  have u: "u = t @ rev (takeWhile isWhitespace (rev u))"
    unfolding t_def by (metis rev_append rev_rev_ident takeWhile_dropWhile_id)
  have rear: "dropWhile isWhitespace (rev t) = rev t"
    unfolding t_def by simp
  have front: "dropWhile isWhitespace t = t"
  proof (cases t)
    case Nil
    then show ?thesis by simp
  next
    case (Cons x xs)
    then have "u \<noteq> []" "hd u = x" using u by (metis append_is_Nil_conv list.distinct(1), metis hd_append2 list.sel(1) list.distinct(1))
    then have "\<not> isWhitespace x" unfolding u_def using hd_dropWhile by metis
    then show ?thesis using Cons by simp
  qed
  show ?thesis unfolding t by (simp add: trim_def front rear)
qed

lemma parse_serialize_text:
  assumes "yamlWrites Y (headerOf c)"
  shows "parseChunkFile Y (serializeChunk Y c) f
     = (case parseYaml Y (butlast (stringifyYaml Y (headerOf c))) of
          None \<Rightarrow> Inl YamlError
        | Some m \<Rightarrow> Inr (chunkOfHeader m (trim (content c))))"
proof -
  define y where "y = stringifyYaml Y (headerOf c)"
  define t where "t = butlast y"
  have rt: "y \<noteq> []" "last y = nl" "''---'' \<notin> set (split_nl t)"
    using assms unfolding yamlWrites_def Let_def y_def [symmetric] t_def
    by (simp_all add: FRONTMATTER_DELIMITER_def)
  have y: "y = t @ [nl]"
    unfolding t_def using rt(1,2) append_butlast_last_id [of y] by simp
  note nodelim = rt(3)
  have ser: "serializeChunk Y c = ''---'' @ nl # (t @ nl # (''---'' @ nl # ([] @ nl # content c)))"
    by (simp add: serializeChunk_def FRONTMATTER_DELIMITER_def y_def [symmetric] y)
  have lines: "split_nl (serializeChunk Y c)
      = ''---'' # (split_nl t @ ''---'' # [] # split_nl (content c))"
    unfolding ser split_nl_append by (simp add: split_nl_no_nl)
  have idx: "indexOf (split_nl (serializeChunk Y c)) ''---'' 1 = Some (Suc (length (split_nl t)))"
    unfolding lines using indexOf_here [OF nodelim] by simp
  have hdr: "joinWith [nl] (slice' (split_nl (serializeChunk Y c)) 1 (Suc (length (split_nl t)))) = t"
    unfolding lines by (simp add: slice'_def joinWith_split_nl)
  have body: "trim (joinWith [nl] (drop (Suc (length (split_nl t)) + 1)
                 (split_nl (serializeChunk Y c)))) = trim (content c)"
    unfolding lines
    by (simp add: joinWith_Cons split_nl_nonempty joinWith_split_nl trim_nl)
  have first: "take 1 (split_nl (serializeChunk Y c)) = [''---'']"
    unfolding lines by simp
  have "parseChunkFile Y (serializeChunk Y c) f
      = (case parseYaml Y t of
           None \<Rightarrow> Inl YamlError
         | Some m \<Rightarrow> Inr (chunkOfHeader m (trim (content c))))"
    unfolding parseChunkFile_def Let_def FRONTMATTER_DELIMITER_def
    using first idx hdr body by (simp split: option.split)
  then show ?thesis by (simp add: t_def y_def)
qed

lemma yamlRoundTrip_writes: "yamlRoundTrip Y m \<Longrightarrow> yamlWrites Y m"
  by (simp add: yamlRoundTrip_def yamlWrites_def Let_def)

lemma yamlRoundTrip_reads:
  "yamlRoundTrip Y m \<Longrightarrow> parseYaml Y (butlast (stringifyYaml Y m)) = Some m"
  by (simp add: yamlRoundTrip_def Let_def)

lemma chunkOfHeader_headerOf: "chunkOfHeader (headerOf c) (trim (content c)) = asStored c"
  by (simp add: chunkOfHeader_def headerOf_def asStored_def truthy_def split: option.splits)


lemma chunkOfHeader_counters:
  assumes "countersAgree (headerOf c) m"
  shows "id' (chunkOfHeader m b) = id' c"
    and "retrieved_count (chunkOfHeader m b) = retrieved_count c"
    and "relevant_count (chunkOfHeader m b) = relevant_count c"
  using assms by (simp_all add: countersAgree_def chunkOfHeader_def headerOf_def)

lemma parse_serialize:
  assumes "yamlRoundTrip Y (headerOf c)"
  shows "parseChunkFile Y (serializeChunk Y c) f = Inr (asStored c)"
  by (simp add: parse_serialize_text [OF yamlRoundTrip_writes [OF assms]]
      yamlRoundTrip_reads [OF assms] chunkOfHeader_headerOf)

lemma asStored_stable: "codecStable c \<Longrightarrow> asStored c = c"
  by (cases c) (auto simp: asStored_def codecStable_def truthy_def filter_id_conv
      split: option.splits)


lemma plainYaml_roundTrip: "yamlRoundTrip plainYaml m"
  using plainYaml_ok by (simp add: yamlOk_def)









subsection \<open>The storage index and the watcher\<close>

lemma buildIndexLoop_keeps: "m i \<noteq> None \<Longrightarrow> buildIndexLoop fs m i \<noteq> None"
  by (induction fs arbitrary: m) (auto simp: Let_def)

lemma buildIndexLoop_Some:
  "buildIndexLoop fs m i = Some f \<Longrightarrow>
     m i = Some f \<or> (f \<in> set fs \<and> endsWith f ''.md'' \<and> beforeDash f = i \<and> length i = 6)"
proof (induction fs arbitrary: m)
  case Nil
  then show ?case by simp
next
  case (Cons name rest)
  show ?case
  proof (cases "endsWith name ''.md'' \<and> beforeDash name \<noteq> [] \<and> length (beforeDash name) = 6")
    case True
    then have "buildIndexLoop rest (m(beforeDash name \<mapsto> name)) i = Some f"
      using Cons.prems by (simp add: Let_def)
    from Cons.IH [OF this] show ?thesis using True by (auto split: if_splits)
  next
    case False
    then have "buildIndexLoop rest m i = Some f"
      using Cons.prems by (auto simp: Let_def split: if_splits)
    from Cons.IH [OF this] show ?thesis by auto
  qed
qed

lemma buildIndexLoop_enters:
  "f \<in> set fs \<Longrightarrow> endsWith f ''.md'' \<Longrightarrow> length (beforeDash f) = 6 \<Longrightarrow>
     buildIndexLoop fs m (beforeDash f) \<noteq> None"
proof (induction fs arbitrary: m)
  case Nil
  then show ?case by simp
next
  case (Cons name rest)
  show ?case
  proof (cases "f = name")
    case True
    then have "buildIndexLoop (name # rest) m (beforeDash f)
        = buildIndexLoop rest (m(beforeDash f \<mapsto> f)) (beforeDash f)"
      using Cons.prems by (auto simp: Let_def)
    then show ?thesis using buildIndexLoop_keeps [of "m(beforeDash f \<mapsto> f)" "beforeDash f" rest]
      by simp
  next
    case False
    then have "f \<in> set rest" using Cons.prems by simp
    then show ?thesis using Cons.IH Cons.prems by (auto simp: Let_def)
  qed
qed

text \<open>
  Claim C4, as the code has it. \<^verbatim>\<open>buildIndex\<close> enters a file of the listing under the
  characters before its first dash exactly when the name ends in \<^verbatim>\<open>.md\<close> and these
  characters are six, whatever they are. A watcher event for a path whose basename has a
  prefix that is not six characters long changes neither the semantic index nor the audit
  log.
\<close>

theorem buildIndex_prefix_length:
  "(\<forall>i f. idToFilename (buildIndex fs st) i = Some f \<longrightarrow>
       f \<in> set fs \<and> endsWith f ''.md'' \<and> beforeDash f = i \<and> length i = 6)
   \<and> (\<forall>f \<in> set fs. endsWith f ''.md'' \<and> length (beforeDash f) = 6 \<longrightarrow>
         exists (buildIndex fs st) (beforeDash f))
   \<and> (length (beforeDash (basename p)) \<noteq> 6 \<longrightarrow>
         fst (handleFileChange Y e p ms) = Inr ()
         \<and> index (snd (handleFileChange Y e p ms)) = index ms
         \<and> audit (snd (handleFileChange Y e p ms)) = audit ms
         \<and> handleFileDelete e p ms = ms)"
proof -
  have 1: "f \<in> set fs \<and> endsWith f ''.md'' \<and> beforeDash f = i \<and> length i = 6"
    if "idToFilename (buildIndex fs st) i = Some f" for i f
    using that buildIndexLoop_Some [of fs Map.empty i f] by (simp add: buildIndex_def)
  have 2: "exists (buildIndex fs st) (beforeDash f)"
    if "f \<in> set fs" "endsWith f ''.md'' \<and> length (beforeDash f) = 6" for f
    using that buildIndexLoop_enters [of f fs Map.empty] by (simp add: buildIndex_def exists_def)
  have 3: "fst (handleFileChange Y e p ms) = Inr ()
         \<and> index (snd (handleFileChange Y e p ms)) = index ms
         \<and> audit (snd (handleFileChange Y e p ms)) = audit ms
         \<and> handleFileDelete e p ms = ms"
    if "length (beforeDash (basename p)) \<noteq> 6"
    using that by (simp add: handleFileChange_def handleFileDelete_def Let_def)
  show ?thesis using 1 2 3 by blast
qed

theorem buildIndex_prefix_length_witness:
  "idToFilename (buildIndex [''abc123-greet.md'', ''abc-x.md'', ''abc123.txt''] (storage emptyStore))
     = [''abc123'' \<mapsto> ''abc123-greet.md'']
   \<and> exists (buildIndex [''abc123-greet.md'', ''abc-x.md''] (storage emptyStore)) ''abc123''
   \<and> index (snd (handleFileChange plainYaml exampleEnv ''/data/chunks/abc-x.md'' emptyStore))
       = index emptyStore"
proof -
  have a: "endsWith ''abc123-greet.md'' ''.md''" "beforeDash ''abc123-greet.md'' = ''abc123''"
    "beforeDash (basename ''/data/chunks/abc-x.md'') = ''abc''"
    by (simp_all add: endsWith_def beforeDash_def basename_def)
  have b: "exists (buildIndex [''abc123-greet.md'', ''abc-x.md''] (storage emptyStore)) ''abc123''"
    using buildIndex_prefix_length
      [of "[''abc123-greet.md'', ''abc-x.md'']" "storage emptyStore"] a
    by fastforce
  have c: "index (snd (handleFileChange plainYaml exampleEnv ''/data/chunks/abc-x.md'' emptyStore))
       = index emptyStore"
    using buildIndex_prefix_length [of _ _ "''/data/chunks/abc-x.md''" plainYaml exampleEnv emptyStore]
      a
    by simp
  have d: "idToFilename (buildIndex [''abc123-greet.md'', ''abc-x.md'', ''abc123.txt'']
      (storage emptyStore)) = [''abc123'' \<mapsto> ''abc123-greet.md'']"
    by (simp add: buildIndex_def endsWith_def beforeDash_def Let_def)
  show ?thesis using b c d by simp
qed

lemma getFilename_nonempty: "getFilename i s \<noteq> []"
  by (simp add: getFilename_def)

lemma read_write_same:
  assumes "yamlRoundTrip Y (headerOf c)"
  shows "read Y (id' c) (write' Y c st) = Some (asStored c)"
  by (simp add: read_def write'_def Let_def getFilename_nonempty parse_serialize [OF assms])


text \<open>
  Claim C4, as stated, fails: a prefix of six characters that are not hexadecimal digits
  is entered into the mapping, and so is a name without a dash whose length is six with
  the extension; the watcher reconciles the file into the semantic index.
\<close>

theorem buildIndex_hex_counterexample:
  "\<not> isHexId ''zzzzzz''
   \<and> idToFilename (buildIndex [''zzzzzz-note.md''] (storage emptyStore)) ''zzzzzz''
       = Some ''zzzzzz-note.md''
   \<and> \<not> isHexId ''ab3.md''
   \<and> idToFilename (buildIndex [''ab3.md''] (storage emptyStore)) ''ab3.md'' = Some ''ab3.md''
   \<and> idToIndex (index strayStore) ''zzzzzz'' = None
   \<and> idToIndex (index (snd (handleFileChange plainYaml (exampleEnv\<lparr>listing := [''zzzzzz-note.md'']\<rparr>)
        ''/data/chunks/zzzzzz-note.md'' strayStore))) ''zzzzzz'' = Some 0"
proof -
  have a: "\<not> isHexId ''zzzzzz''" "\<not> isHexId ''ab3.md''"
    by (simp_all add: isHexId_def isHexChar_def)
  have b: "idToFilename (buildIndex [''zzzzzz-note.md''] (storage emptyStore)) ''zzzzzz''
       = Some ''zzzzzz-note.md''"
    "idToFilename (buildIndex [''ab3.md''] (storage emptyStore)) ''ab3.md'' = Some ''ab3.md''"
    by (simp_all add: buildIndex_def endsWith_def beforeDash_def Let_def)
  have c: "idToIndex (index strayStore) ''zzzzzz'' = None"
    by (simp add: strayStore_def emptyStore_def reset_def)
  have r: "read plainYaml ''zzzzzz''
      (reloadIndex [''zzzzzz-note.md''] (storage strayStore))
      = Some (asStored (exampleChunk\<lparr>id' := ''zzzzzz''\<rparr>))"
    by (simp add: read_def reloadIndex_def buildIndex_def endsWith_def beforeDash_def Let_def
        strayStore_def parse_serialize [OF plainYaml_roundTrip])
  have d: "idToIndex (index (snd (handleFileChange plainYaml
        (exampleEnv\<lparr>listing := [''zzzzzz-note.md'']\<rparr>)
        ''/data/chunks/zzzzzz-note.md'' strayStore))) ''zzzzzz'' = Some 0"
    using r
    by (simp add: handleFileChange_def Let_def basename_def beforeDash_def exampleEnv_def
        updateDocument_def removeDocument_def addDocument_def allocate_def okBackend_def
        strayStore_def emptyStore_def reset_def log'_def)
  show ?thesis using a b c d by simp
qed

subsection \<open>Reading and writing chunks\<close>




lemma parsed_stable:
  assumes "parseChunkFile Y t f = Inr c"
  shows "trim (content c) = content c"
    and "\<forall>r \<in> set (related c). rel_id r \<noteq> [] \<and> rel_reason r \<noteq> []"
    and "last_relevant_date c \<noteq> Some []"
proof -
  obtain m b where c: "c = chunkOfHeader m (trim b)"
    using assms by (auto simp: parseChunkFile_def Let_def split: if_splits option.splits)
  show "trim (content c) = content c" by (simp add: c chunkOfHeader_def trim_idem)
  show "\<forall>r \<in> set (related c). rel_id r \<noteq> [] \<and> rel_reason r \<noteq> []"
    by (auto simp: c chunkOfHeader_def split: option.splits)
  show "last_relevant_date c \<noteq> Some []"
    by (auto simp: c chunkOfHeader_def truthy_def split: option.splits)
qed

lemma read_parsed:
  assumes "read Y i st = Some c"
  shows "\<exists>t f. parseChunkFile Y t f = Inr c"
  using assms by (auto simp: read_def split: option.splits if_splits sum.splits)

lemma read_stable:
  assumes "read Y i st = Some c"
  shows "trim (content c) = content c"
    and "\<forall>r \<in> set (related c). rel_id r \<noteq> [] \<and> rel_reason r \<noteq> []"
    and "last_relevant_date c \<noteq> Some []"
  using read_parsed [OF assms] parsed_stable by blast+





subsection \<open>Marking a chunk obsolete\<close>

lemma endsWith_append: "endsWith (a @ b) b"
  by (simp add: endsWith_def)

lemma markObsolete_storage:
  "read Y i (storage st) = Some c \<Longrightarrow>
     storage (snd (markObsolete Y e i reason st)) = write' Y (obsolete (now e) reason c) (storage st)"
  by (simp add: markObsolete_def Let_def log'_def)

lemma asStored_obsolete:
  assumes "read Y i st = Some c" and "expires c \<noteq> Some []"
  shows "asStored (obsolete t reason c) = obsolete t reason c"
proof -
  have "codecStable (obsolete t reason c)"
    using read_stable [OF assms(1)] assms(2)
    by (simp add: codecStable_def obsolete_def obsoleteNote_def)
  then show ?thesis by (rule asStored_stable)
qed

text \<open>
  Claim C7. When \<^verbatim>\<open>read(id)\<close> finds no chunk, \<^verbatim>\<open>markObsolete(id, reason)\<close> throws
  \<open>ChunkNotFound\<close> and the whole state is as before. When it finds a chunk (whose header
  carries the id it is stored under, and whose \<^verbatim>\<open>expires\<close> is not the empty string), the
  chunk read under the id afterwards is archived, its \<^verbatim>\<open>context_notes\<close> are the old notes,
  a line break when the old notes were not empty, and \<^verbatim>\<open>[Obsoleted: reason]\<close>, its
  \<^verbatim>\<open>updated\<close> is the clock of the call, and every other field is as before. The YAML
  package is taken to read back the header that is written.
\<close>

theorem markObsolete_spec:
  "(read Y i (storage st) = None \<longrightarrow>
      markObsolete Y e i reason st = (Inl (ChunkNotFound i), st))
   \<and> (\<forall>c. read Y i (storage st) = Some c \<and> id' c = i \<and> expires c \<noteq> Some []
          \<and> yamlRoundTrip Y (headerOf (obsolete (now e) reason c)) \<longrightarrow>
        (\<exists>c'. read Y i (storage (snd (markObsolete Y e i reason st))) = Some c'
           \<and> status c' = Archived
           \<and> context_notes c'
               = Some ((if truthy (context_notes c) then the (context_notes c) @ [nl] else [])
                       @ ''[Obsoleted: '' @ reason @ '']'')
           \<and> endsWith (the (context_notes c')) (''[Obsoleted: '' @ reason @ '']'')
           \<and> updated c' = now e
           \<and> c'\<lparr>status := status c, updated := updated c, context_notes := context_notes c\<rparr> = c)
        \<and> thrown (markObsolete Y e i reason st) \<noteq> Some (ChunkNotFound i))"
proof (intro conjI allI impI)
  assume "read Y i (storage st) = None"
  then show "markObsolete Y e i reason st = (Inl (ChunkNotFound i), st)"
    by (simp add: markObsolete_def)
next
  fix c
  assume h: "read Y i (storage st) = Some c \<and> id' c = i \<and> expires c \<noteq> Some []
          \<and> yamlRoundTrip Y (headerOf (obsolete (now e) reason c))"
  define c' where "c' = obsolete (now e) reason c"
  have idc: "id' c' = i" using h by (simp add: c'_def obsolete_def)
  have "read Y i (storage (snd (markObsolete Y e i reason st))) = Some (asStored c')"
    using h read_write_same [of Y c' "storage st"] idc
    by (simp add: markObsolete_storage c'_def)
  then have r: "read Y i (storage (snd (markObsolete Y e i reason st))) = Some c'"
    using asStored_obsolete [of Y i "storage st" c "now e" reason] h by (simp add: c'_def)
  have n: "context_notes c'
      = Some ((if truthy (context_notes c) then the (context_notes c) @ [nl] else [])
              @ ''[Obsoleted: '' @ reason @ '']'')"
    by (simp add: c'_def obsolete_def obsoleteNote_def)
  have "endsWith (the (context_notes c')) (''[Obsoleted: '' @ reason @ '']'')"
    unfolding n option.sel by (rule endsWith_append)
  moreover have "status c' = Archived" "updated c' = now e"
    "c'\<lparr>status := status c, updated := updated c, context_notes := context_notes c\<rparr> = c"
    by (simp_all add: c'_def obsolete_def)
  ultimately show "\<exists>c'. read Y i (storage (snd (markObsolete Y e i reason st))) = Some c'
           \<and> status c' = Archived
           \<and> context_notes c'
               = Some ((if truthy (context_notes c) then the (context_notes c) @ [nl] else [])
                       @ ''[Obsoleted: '' @ reason @ '']'')
           \<and> endsWith (the (context_notes c')) (''[Obsoleted: '' @ reason @ '']'')
           \<and> updated c' = now e
           \<and> c'\<lparr>status := status c, updated := updated c, context_notes := context_notes c\<rparr> = c"
    using r n by blast
  show "thrown (markObsolete Y e i reason st) \<noteq> Some (ChunkNotFound i)"
    using h by (simp add: markObsolete_def thrown_def Let_def log'_def)
qed


lemma exampleId: "generateUniqueId (storage emptyStore) (draws exampleEnv) = Inr ''abc123''"
proof -
  have g: "generateId (0xab, 0xc1, 0x23) = ''abc123''"
    by (simp add: generateId_def toHex_def hexByte_def hexDigit_def)
  have "generateLoop (exists (storage emptyStore)) (\<lambda>k. ''abc123'') ''abc123'' 0 = (''abc123'', 0)"
    by (subst generateLoop.simps) (simp add: exists_def emptyStore_def)
  then show ?thesis by (simp add: generateUniqueId_def exampleEnv_def g)
qed

lemma exampleNewChunk:
  "newChunk (now exampleEnv) ''abc123'' ''hello world'' exampleMetadata = exampleChunk"
  by (simp add: newChunk_def spread_def exampleMetadata_def noMetadata_def exampleChunk_def
      exampleEnv_def)

lemma exampleStore_storage:
  "storage exampleStore = write' plainYaml exampleChunk (storage emptyStore)"
proof -
  have m: "missingField exampleMetadata = None"
    by (simp add: missingField_def exampleMetadata_def noMetadata_def)
  show ?thesis
    unfolding exampleStore_def storeChunk_def
    by (simp add: m exampleId exampleNewChunk Let_def log'_def split: prod.splits sum.splits)
qed

lemma exampleChunk_stable: "codecStable exampleChunk"
  by (simp add: codecStable_def exampleChunk_def trim_def isWhitespace_def)

lemma exampleStore_read: "read plainYaml ''abc123'' (storage exampleStore) = Some exampleChunk"
proof -
  have i: "id' exampleChunk = ''abc123''" by (simp add: exampleChunk_def)
  show ?thesis
    using read_write_same [OF plainYaml_roundTrip, of exampleChunk "storage emptyStore"]
    by (simp add: exampleStore_storage asStored_stable [OF exampleChunk_stable] i)
qed

lemma exampleStore_read_other:
  "i \<noteq> ''abc123'' \<Longrightarrow> read plainYaml i (storage exampleStore) = None"
  by (simp add: exampleStore_storage read_def write'_def Let_def emptyStore_def exampleChunk_def)

lemma exampleStore_index:
  "index exampleStore = \<lparr>maxElements = 10000, idToIndex = [''abc123'' \<mapsto> 0],
     indexToId = [0 \<mapsto> ''abc123''], nextIndex = 1, deletedIndices = [], hasIndex = True\<rparr>"
proof -
  have m: "missingField exampleMetadata = None"
    by (simp add: missingField_def exampleMetadata_def noMetadata_def)
  have a: "addDocument (lib exampleEnv) ''abc123'' t (index emptyStore)
      = (Inr (), \<lparr>maxElements = 10000, idToIndex = [''abc123'' \<mapsto> 0],
           indexToId = [0 \<mapsto> ''abc123''], nextIndex = 1, deletedIndices = [], hasIndex = True\<rparr>)"
    for t
    by (simp add: addDocument_def allocate_def emptyStore_def reset_def exampleEnv_def
        okBackend_def)
  show ?thesis
    unfolding exampleStore_def storeChunk_def
    by (simp add: m exampleId exampleNewChunk Let_def log'_def a)
qed

lemma exampleQuery:
  "query (lib laterEnv) ''hello'' 1 (index exampleStore) = Inr [(''abc123'', 1 / 10)]"
  by (simp add: query_def exampleStore_index getDocumentCount_def laterEnv_def exampleEnv_def
      okBackend_def truthy_def)

theorem markObsolete_spec_witness:
  "read plainYaml ''abc123'' (storage exampleStore) = Some exampleChunk
   \<and> read plainYaml ''abc123''
        (storage (snd (markObsolete plainYaml laterEnv ''abc123'' ''superseded by xyz'' exampleStore)))
       = Some (exampleChunk\<lparr>status := Archived, updated := ''2025-01-16T12:00:00.000Z'',
                 context_notes := Some ''[Obsoleted: superseded by xyz]''\<rparr>)
   \<and> markObsolete plainYaml laterEnv ''ffffff'' ''superseded by xyz'' exampleStore
       = (Inl (ChunkNotFound ''ffffff''), exampleStore)"
proof -
  note spec = markObsolete_spec [of plainYaml _ exampleStore laterEnv "''superseded by xyz''"]
  have h: "id' exampleChunk = ''abc123''" "expires exampleChunk \<noteq> Some []"
    "context_notes exampleChunk = None" "now laterEnv = ''2025-01-16T12:00:00.000Z''"
    by (simp_all add: exampleChunk_def laterEnv_def)
  obtain c' where c':
    "read plainYaml ''abc123''
        (storage (snd (markObsolete plainYaml laterEnv ''abc123'' ''superseded by xyz'' exampleStore)))
       = Some c'"
    "status c' = Archived"
    "context_notes c' = Some ''[Obsoleted: superseded by xyz]''"
    "updated c' = ''2025-01-16T12:00:00.000Z''"
    "c'\<lparr>status := status exampleChunk, updated := updated exampleChunk,
        context_notes := context_notes exampleChunk\<rparr> = exampleChunk"
    using spec [of "''abc123''"] exampleStore_read h plainYaml_roundTrip
    by (auto simp: truthy_def)
  have "c' = exampleChunk\<lparr>status := Archived, updated := ''2025-01-16T12:00:00.000Z'',
                 context_notes := Some ''[Obsoleted: superseded by xyz]''\<rparr>"
    using c'(2-5) by (cases c') (auto simp: exampleChunk_def)
  moreover have "markObsolete plainYaml laterEnv ''ffffff'' ''superseded by xyz'' exampleStore
       = (Inl (ChunkNotFound ''ffffff''), exampleStore)"
    using spec [of "''ffffff''"] exampleStore_read_other [of "''ffffff''"] by simp
  ultimately show ?thesis using c'(1) exampleStore_read by simp
qed

subsection \<open>Updating a chunk\<close>








subsection \<open>Audit appends that throw\<close>

lemma storeChunk_append_independent:
  "storage (snd (storeChunk Y (e\<lparr>appendFails := f\<rparr>) b m st)) = storage (snd (storeChunk Y e b m st))
   \<and> index (snd (storeChunk Y (e\<lparr>appendFails := f\<rparr>) b m st)) = index (snd (storeChunk Y e b m st))"
  by (simp add: storeChunk_def Let_def log'_def split: option.splits sum.splits prod.splits)

lemma updateChunk_append_independent:
  "storage (snd (updateChunk Y (e\<lparr>appendFails := f\<rparr>) i m b st)) = storage (snd (updateChunk Y e i m b st))
   \<and> index (snd (updateChunk Y (e\<lparr>appendFails := f\<rparr>) i m b st)) = index (snd (updateChunk Y e i m b st))"
  by (simp add: updateChunk_def Let_def log'_def split: option.splits sum.splits prod.splits)

lemma queryStore_append_independent:
  "storage (snd (queryStore Y (e\<lparr>appendFails := f\<rparr>) q k st)) = storage (snd (queryStore Y e q k st))
   \<and> index (snd (queryStore Y (e\<lparr>appendFails := f\<rparr>) q k st)) = index (snd (queryStore Y e q k st))"
  by (simp add: queryStore_def Let_def log'_def split: option.splits sum.splits prod.splits)

lemma markRelevant_append_independent:
  "storage (snd (markRelevant Y (e\<lparr>appendFails := f\<rparr>) ids st)) = storage (snd (markRelevant Y e ids st))
   \<and> index (snd (markRelevant Y (e\<lparr>appendFails := f\<rparr>) ids st)) = index (snd (markRelevant Y e ids st))"
  by (simp add: markRelevant_def Let_def log'_def split: option.splits sum.splits prod.splits)

lemma markObsolete_append_independent:
  "storage (snd (markObsolete Y (e\<lparr>appendFails := f\<rparr>) i r st)) = storage (snd (markObsolete Y e i r st))
   \<and> index (snd (markObsolete Y (e\<lparr>appendFails := f\<rparr>) i r st)) = index (snd (markObsolete Y e i r st))"
  by (simp add: markObsolete_def Let_def log'_def split: option.splits sum.splits prod.splits)

lemma storeChunk_append_throws:
  assumes "thrown (storeChunk Y (e\<lparr>appendFails := \<lambda>k. False\<rparr>) b m st) = None" and "f 0"
  shows "thrown (storeChunk Y (e\<lparr>appendFails := f\<rparr>) b m st) = Some IoError"
  using assms
  by (simp add: storeChunk_def thrown_def Let_def log'_def
      split: option.splits sum.splits prod.splits)

lemma updateChunk_append_throws:
  assumes "thrown (updateChunk Y (e\<lparr>appendFails := \<lambda>k. False\<rparr>) i m b st) = None" and "f 0"
  shows "thrown (updateChunk Y (e\<lparr>appendFails := f\<rparr>) i m b st) = Some IoError"
  using assms
  by (simp add: updateChunk_def thrown_def Let_def log'_def
      split: option.splits sum.splits prod.splits)

lemma queryStore_append_throws:
  assumes "thrown (queryStore Y (e\<lparr>appendFails := \<lambda>k. False\<rparr>) q k st) = None"
    and "f 0 \<or> f 1"
    and "audit (snd (queryStore Y (e\<lparr>appendFails := \<lambda>k. False\<rparr>) q k st)) \<noteq> audit st"
  shows "thrown (queryStore Y (e\<lparr>appendFails := f\<rparr>) q k st) = Some IoError"
  using assms
  by (auto simp: queryStore_def thrown_def Let_def log'_def
      split: option.splits sum.splits prod.splits if_splits)

lemma markRelevant_append_throws:
  assumes "f 0"
  shows "thrown (markRelevant Y (e\<lparr>appendFails := f\<rparr>) ids st) = Some IoError"
  using assms by (simp add: markRelevant_def thrown_def Let_def log'_def)

lemma markObsolete_append_throws:
  assumes "thrown (markObsolete Y (e\<lparr>appendFails := \<lambda>k. False\<rparr>) i r st) = None" and "f 0"
  shows "thrown (markObsolete Y (e\<lparr>appendFails := f\<rparr>) i r st) = Some IoError"
  using assms
  by (simp add: markObsolete_def thrown_def Let_def log'_def
      split: option.splits sum.splits prod.splits)

lemma storeChunk_append_same:
  "\<not> f 0 \<Longrightarrow> storeChunk Y (e\<lparr>appendFails := f\<rparr>) b m st
     = storeChunk Y (e\<lparr>appendFails := \<lambda>k. False\<rparr>) b m st"
  by (simp add: storeChunk_def Let_def log'_def split: option.splits sum.splits prod.splits)

lemma updateChunk_append_same:
  "\<not> f 0 \<Longrightarrow> updateChunk Y (e\<lparr>appendFails := f\<rparr>) i m b st
     = updateChunk Y (e\<lparr>appendFails := \<lambda>k. False\<rparr>) i m b st"
  by (simp add: updateChunk_def Let_def log'_def split: option.splits sum.splits prod.splits)

lemma queryStore_append_same:
  "\<not> f 0 \<Longrightarrow> \<not> f 1 \<Longrightarrow> queryStore Y (e\<lparr>appendFails := f\<rparr>) q k st
     = queryStore Y (e\<lparr>appendFails := \<lambda>k. False\<rparr>) q k st"
  by (simp add: queryStore_def Let_def log'_def split: option.splits sum.splits prod.splits)

lemma markRelevant_append_same:
  "\<not> f 0 \<Longrightarrow> markRelevant Y (e\<lparr>appendFails := f\<rparr>) ids st
     = markRelevant Y (e\<lparr>appendFails := \<lambda>k. False\<rparr>) ids st"
  by (simp add: markRelevant_def Let_def log'_def split: option.splits sum.splits prod.splits)

lemma markObsolete_append_same:
  "\<not> f 0 \<Longrightarrow> markObsolete Y (e\<lparr>appendFails := f\<rparr>) i r st
     = markObsolete Y (e\<lparr>appendFails := \<lambda>k. False\<rparr>) i r st"
  by (simp add: markObsolete_def Let_def log'_def split: option.splits sum.splits prod.splits)

text \<open>
  Claim C1, as the code has it. For each of the five mutations, the storage and the
  semantic index an operation leaves do not depend on whether its audit appends throw:
  what was written stays written. But the operation does not return: when it would
  return with every append succeeding and it appends at all, an append that throws, be
  it the first or, for \<^verbatim>\<open>query\<close>, the second, makes the operation throw that error. When
  none of the appends it makes throws, the operation ends as it does with every append
  succeeding, in the same state.
\<close>

theorem audit_failure_propagates:
  "storage (step Y (e\<lparr>appendFails := f\<rparr>, op) st) = storage (step Y (e, op) st)
   \<and> index (step Y (e\<lparr>appendFails := f\<rparr>, op) st) = index (step Y (e, op) st)
   \<and> (failure Y (e\<lparr>appendFails := \<lambda>k. False\<rparr>, op) st = None
        \<and> audit (step Y (e\<lparr>appendFails := \<lambda>k. False\<rparr>, op) st) \<noteq> audit st
        \<and> (\<exists>k. k < appendsOf op \<and> f k) \<longrightarrow>
        failure Y (e\<lparr>appendFails := f\<rparr>, op) st = Some IoError)
   \<and> ((\<forall>k. k < appendsOf op \<longrightarrow> \<not> f k) \<longrightarrow>
        failure Y (e\<lparr>appendFails := f\<rparr>, op) st
          = failure Y (e\<lparr>appendFails := \<lambda>k. False\<rparr>, op) st
        \<and> step Y (e\<lparr>appendFails := f\<rparr>, op) st
          = step Y (e\<lparr>appendFails := \<lambda>k. False\<rparr>, op) st)"
proof (cases op)
  case (StoreChunk b m)
  then show ?thesis
    using storeChunk_append_same [where f = f]
    by (simp add: storeChunk_append_independent storeChunk_append_throws)
next
  case (UpdateChunk i m b)
  then show ?thesis
    using updateChunk_append_same [where f = f]
    by (simp add: updateChunk_append_independent updateChunk_append_throws)
next
  case (Query q k)
  have two: "(\<exists>j. j < (2::nat) \<and> f j) \<longleftrightarrow> f 0 \<or> f 1"
    by (auto simp: less_Suc_eq numeral_2_eq_2)
  have none: "(\<forall>j. j < (2::nat) \<longrightarrow> \<not> f j) \<longleftrightarrow> \<not> f 0 \<and> \<not> f 1"
    by (auto simp: less_Suc_eq numeral_2_eq_2)
  show ?thesis
    unfolding Query appendsOf.simps two none
    using queryStore_append_throws [of Y e q k st f] queryStore_append_same [where f = f]
    by (simp add: queryStore_append_independent)
next
  case (MarkRelevant ids)
  then show ?thesis
    using markRelevant_append_same [where f = f]
    by (simp add: markRelevant_append_independent markRelevant_append_throws)
next
  case (MarkObsolete i r)
  then show ?thesis
    using markObsolete_append_same [where f = f]
    by (simp add: markObsolete_append_independent markObsolete_append_throws)
qed

theorem audit_failure_propagates_witness:
  "failure plainYaml (laterEnv\<lparr>appendFails := \<lambda>k. False\<rparr>, Query ''hello'' 1) exampleStore = None
   \<and> audit (step plainYaml (laterEnv\<lparr>appendFails := \<lambda>k. False\<rparr>, Query ''hello'' 1) exampleStore)
       \<noteq> audit exampleStore
   \<and> (1::nat) < appendsOf (Query ''hello'' 1)
   \<and> failure plainYaml (laterEnv\<lparr>appendFails := \<lambda>k. k = 1\<rparr>, Query ''hello'' 1) exampleStore
     = Some IoError
   \<and> storage (step plainYaml (laterEnv\<lparr>appendFails := \<lambda>k. k = 1\<rparr>, Query ''hello'' 1)
        exampleStore)
     = storage (step plainYaml (laterEnv, Query ''hello'' 1) exampleStore)
   \<and> appendsOf (MarkObsolete ''abc123'' ''old'') = 1
   \<and> failure plainYaml (laterEnv\<lparr>appendFails := \<lambda>k. k = 1\<rparr>, MarkObsolete ''abc123'' ''old'')
        exampleStore
     = None
   \<and> failure plainYaml (laterEnv\<lparr>appendFails := \<lambda>k. k = 0\<rparr>, MarkObsolete ''abc123'' ''old'')
        exampleStore
     = Some IoError"
proof -
  have a: "failure plainYaml (laterEnv\<lparr>appendFails := \<lambda>k. False\<rparr>, Query ''hello'' 1) exampleStore
      = None"
    by (simp add: queryStore_def exampleQuery exampleStore_read Let_def log'_def thrown_def)
  have "audit (step plainYaml (laterEnv\<lparr>appendFails := \<lambda>k. False\<rparr>, Query ''hello'' 1)
      exampleStore)
      = audit exampleStore
        @ [\<lparr>timestamp = appendTime laterEnv 0, action = QUERY, chunkId = None,
              details = Some (QueryDetails ''hello'' [''abc123''])\<rparr>,
           \<lparr>timestamp = appendTime laterEnv 1, action = RETRIEVE, chunkId = None,
              details = Some (IdList [''abc123''])\<rparr>]"
    by (simp add: queryStore_def exampleQuery exampleStore_read Let_def log'_def)
  then have b: "audit (step plainYaml (laterEnv\<lparr>appendFails := \<lambda>k. False\<rparr>, Query ''hello'' 1)
      exampleStore) \<noteq> audit exampleStore"
    by simp
  have c: "\<exists>k. k < appendsOf (Query ''hello'' 1) \<and> (\<lambda>k. k = 1) k"
    by simp
  have d: "failure plainYaml (laterEnv\<lparr>appendFails := \<lambda>k. k = 1\<rparr>, Query ''hello'' 1) exampleStore
      = Some IoError"
    using audit_failure_propagates
      [where Y = plainYaml and e = laterEnv and f = "\<lambda>k. k = 1"
         and op = "Query ''hello'' 1" and st = exampleStore] a b c
    by blast
  have g: "storage (step plainYaml (laterEnv\<lparr>appendFails := \<lambda>k. k = 1\<rparr>, Query ''hello'' 1)
        exampleStore)
     = storage (step plainYaml (laterEnv, Query ''hello'' 1) exampleStore)"
    using audit_failure_propagates
      [where Y = plainYaml and e = laterEnv and f = "\<lambda>k. k = 1"
         and op = "Query ''hello'' 1" and st = exampleStore]
    by blast
  have h: "failure plainYaml (laterEnv\<lparr>appendFails := \<lambda>k. False\<rparr>, MarkObsolete ''abc123'' ''old'')
      exampleStore = None"
    by (simp add: markObsolete_def exampleStore_read Let_def log'_def thrown_def)
  have i: "audit (step plainYaml (laterEnv\<lparr>appendFails := \<lambda>k. False\<rparr>, MarkObsolete ''abc123'' ''old'')
      exampleStore) \<noteq> audit exampleStore"
    by (simp add: markObsolete_def exampleStore_read Let_def log'_def split: option.splits sum.splits prod.splits)
  have j: "failure plainYaml (laterEnv\<lparr>appendFails := \<lambda>k. k = 1\<rparr>, MarkObsolete ''abc123'' ''old'')
        exampleStore = None"
    using audit_failure_propagates
      [where Y = plainYaml and e = laterEnv and f = "\<lambda>k. k = 1"
         and op = "MarkObsolete ''abc123'' ''old''" and st = exampleStore] h
    by simp
  have l: "failure plainYaml (laterEnv\<lparr>appendFails := \<lambda>k. k = 0\<rparr>, MarkObsolete ''abc123'' ''old'')
        exampleStore = Some IoError"
    using audit_failure_propagates
      [where Y = plainYaml and e = laterEnv and f = "\<lambda>k. k = 0"
         and op = "MarkObsolete ''abc123'' ''old''" and st = exampleStore] h i
    by simp
  show ?thesis using a b d g j l by simp
qed

text \<open>
  Claim C1, as stated, fails: \<^verbatim>\<open>storeChunk\<close> with an audit append that throws does not
  return the id; it throws, after the chunk was written to the storage.
\<close>

theorem audit_failure_counterexample:
  "fst (storeChunk plainYaml exampleEnv ''hello world'' exampleMetadata emptyStore) = Inr ''abc123''
   \<and> fst (storeChunk plainYaml (exampleEnv\<lparr>appendFails := \<lambda>k. True\<rparr>) ''hello world''
            exampleMetadata emptyStore) = Inl IoError
   \<and> read plainYaml ''abc123''
        (storage (snd (storeChunk plainYaml (exampleEnv\<lparr>appendFails := \<lambda>k. True\<rparr>) ''hello world''
            exampleMetadata emptyStore))) = Some exampleChunk"
proof -
  have m: "missingField exampleMetadata = None"
    by (simp add: missingField_def exampleMetadata_def noMetadata_def)
  have i: "generateUniqueId (storage emptyStore) (draws (exampleEnv\<lparr>appendFails := f\<rparr>))
      = Inr ''abc123''" for f
    using exampleId by simp
  have n: "newChunk (now (exampleEnv\<lparr>appendFails := f\<rparr>)) ''abc123'' ''hello world'' exampleMetadata
      = exampleChunk" for f
    using exampleNewChunk by simp
  have "fst (addDocument (lib exampleEnv) ''abc123'' (buildEmbeddingText exampleChunk)
      (index emptyStore)) = Inr ()"
    by (simp add: addDocument_def allocate_def emptyStore_def reset_def exampleEnv_def
        okBackend_def)
  then obtain ix where d: "addDocument (lib exampleEnv) ''abc123'' (buildEmbeddingText exampleChunk)
      (index emptyStore) = (Inr (), ix)"
    by (metis prod.collapse)
  have w: "index (emptyStore\<lparr>storage := x\<rparr>) = index emptyStore" for x by simp
  have a: "fst (storeChunk plainYaml exampleEnv ''hello world'' exampleMetadata emptyStore)
      = Inr ''abc123''"
    by (simp add: storeChunk_def m exampleId exampleNewChunk Let_def log'_def d)
      (simp add: exampleEnv_def)
  have b: "fst (storeChunk plainYaml (exampleEnv\<lparr>appendFails := \<lambda>k. True\<rparr>) ''hello world''
            exampleMetadata emptyStore) = Inl IoError"
    by (simp add: storeChunk_def m i n exampleId exampleNewChunk Let_def log'_def d)
  have "storage (snd (storeChunk plainYaml (exampleEnv\<lparr>appendFails := \<lambda>k. True\<rparr>) ''hello world''
            exampleMetadata emptyStore)) = storage exampleStore"
    by (simp add: exampleStore_def storeChunk_append_independent)
  then show ?thesis using a b exampleStore_read by simp
qed

subsection \<open>Counters along sequences of operations\<close>



























end
